theory Spec2Isabelle
  imports Complex_Main "HOL-Library.Product_Lexorder" "HOL-Library.Char_ord"
    "HOL-Library.List_Lexorder" "HOL-Library.Option_ord"
begin

section \<open>Python values and strings\<close>

text \<open>
  The report of \<^verbatim>\<open>helpdesk.py\<close> is a nest of dictionaries and lists whose leaves
  are probed dynamically (\<^verbatim>\<open>isinstance\<close>, truthiness, \<^verbatim>\<open>.get\<close>), so values keep
  their Python type. A dictionary is an association list in insertion order. A float is
  the real number it denotes; the one float operation of the program whose operand is
  not bounded, the subtraction of \<^verbatim>\<open>clean_user_temp\<close>, is modelled with its
  overflow and its rounding. A character is a code point below 256.
\<close>

datatype pyval =
    PNone
  | PBool bool
  | PInt int
  | PFloat real
  | PStr string
  | PList "pyval list"
  | PDict "(string \<times> pyval) list"

datatype py_exn =
    EOFError | ValueError | TypeError | AttributeError | OSError
  | NoSuchProcess | AccessDenied | TimeoutExpired | OtherException
  | OverflowError | UnicodeEncodeError

text \<open>\<^verbatim>\<open>str.isspace\<close> on code points below 256.\<close>

definition is_space :: "char \<Rightarrow> bool" where
  "is_space c =
     (let n = (of_char c :: nat)
      in (9 \<le> n \<and> n \<le> 13) \<or> (28 \<le> n \<and> n \<le> 32) \<or> n = 133 \<or> n = 160)"

definition strip :: "string \<Rightarrow> string" where
  "strip s = rev (dropWhile is_space (rev (dropWhile is_space s)))"

definition lower_char :: "char \<Rightarrow> char" where
  "lower_char c =
     (let n = (of_char c :: nat)
      in if (65 \<le> n \<and> n \<le> 90) \<or> (192 \<le> n \<and> n \<le> 222 \<and> n \<noteq> 215)
         then char_of (n + 32) else c)"

definition lower :: "string \<Rightarrow> string" where
  "lower s = map lower_char s"

definition startswith :: "string \<Rightarrow> string \<Rightarrow> bool" where
  "startswith s p = (take (length p) s = p)"

definition is_digit :: "char \<Rightarrow> bool" where
  "is_digit c = (let n = (of_char c :: nat) in 48 \<le> n \<and> n \<le> 57)"

text \<open>
  The digits of \<^verbatim>\<open>int(s)\<close>: at least one digit, single underscores only between
  digits. The flag says whether the previous character was a digit.
\<close>

fun digits_val :: "string \<Rightarrow> bool \<Rightarrow> nat \<Rightarrow> nat option" where
  "digits_val [] prev acc = (if prev then Some acc else None)"
| "digits_val (c # cs) prev acc =
     (if is_digit c then digits_val cs True (10 * acc + (of_char c - 48))
      else if c = CHR ''_'' \<and> prev then digits_val cs False acc
      else None)"

text \<open>
  \<^verbatim>\<open>int(s)\<close> for a string, base 10; \<open>None\<close> is \<^verbatim>\<open>ValueError\<close>. A string with
  more digits than \<^verbatim>\<open>sys.int_info.default_max_str_digits\<close> is refused (the default
  of the interpreter since Python 3.11); the sign, the underscores and the surrounding
  whitespace do not count.
\<close>

definition max_str_digits :: nat where
  "max_str_digits = 4300"

definition py_int :: "string \<Rightarrow> int option" where
  "py_int s =
     (if max_str_digits < length (filter is_digit (strip s)) then None
      else case strip s of
        [] \<Rightarrow> None
      | c # cs \<Rightarrow>
          if c = CHR ''-'' then map_option (\<lambda>n. - int n) (digits_val cs False 0)
          else if c = CHR ''+'' then map_option int (digits_val cs False 0)
          else map_option int (digits_val (c # cs) False 0))"

text \<open>\<^verbatim>\<open>int(x)\<close> for any value.\<close>

fun py_int_of :: "pyval \<Rightarrow> py_exn + int" where
  "py_int_of (PInt i) = Inr i"
| "py_int_of (PBool b) = Inr (if b then 1 else 0)"
| "py_int_of (PFloat x) = Inr (if 0 \<le> x then \<lfloor>x\<rfloor> else \<lceil>x\<rceil>)"
| "py_int_of (PStr s) = (case py_int s of None \<Rightarrow> Inl ValueError | Some i \<Rightarrow> Inr i)"
| "py_int_of PNone = Inl TypeError"
| "py_int_of (PList xs) = Inl TypeError"
| "py_int_of (PDict kvs) = Inl TypeError"

section \<open>Standard output\<close>

text \<open>
  \<^verbatim>\<open>print\<close> encodes its text with the encoding of standard output and raises
  \<^verbatim>\<open>UnicodeEncodeError\<close>, a subclass of \<^verbatim>\<open>ValueError\<close>, on a character the
  encoding lacks. Every literal the program prints is ASCII but for the bullet U+2022 of
  \<^verbatim>\<open>suggest_actions\<close>. A console says which characters above ASCII it encodes and
  whether it encodes the bullet; ASCII is encoded by every console.
\<close>

record console =
  encodes :: "char \<Rightarrow> bool"
  encodes_bullet :: bool

definition can_encode :: "console \<Rightarrow> char \<Rightarrow> bool" where
  "can_encode con c = ((of_char c :: nat) < 128 \<or> encodes con c)"

definition text_ok :: "console \<Rightarrow> string \<Rightarrow> bool" where
  "text_ok con s = list_all (can_encode con) s"

text \<open>
  \<^verbatim>\<open>repr\<close> of a string escapes the characters that are not printable, which below
  256 are the code points under 32, from 127 to 160, and 173; an escape is ASCII. The
  characters it keeps and that are not ASCII are those above 160 other than 173.
\<close>

definition repr_keeps :: "char \<Rightarrow> bool" where
  "repr_keeps c = (let n = (of_char c :: nat) in 160 < n \<and> n \<noteq> 173)"

definition repr_text_ok :: "console \<Rightarrow> string \<Rightarrow> bool" where
  "repr_text_ok con s = list_all (\<lambda>c. if repr_keeps c then encodes con c else True) s"

text \<open>Whether \<^verbatim>\<open>repr(v)\<close> can be printed: numbers, \<^verbatim>\<open>None\<close> and booleans are ASCII.\<close>

fun repr_ok :: "console \<Rightarrow> pyval \<Rightarrow> bool" where
  "repr_ok con PNone = True"
| "repr_ok con (PBool b) = True"
| "repr_ok con (PInt i) = True"
| "repr_ok con (PFloat x) = True"
| "repr_ok con (PStr s) = repr_text_ok con s"
| "repr_ok con (PList xs) = list_all (repr_ok con) xs"
| "repr_ok con (PDict kvs) = list_all (\<lambda>kv. repr_text_ok con (fst kv) \<and> repr_ok con (snd kv)) kvs"

text \<open>Whether \<^verbatim>\<open>str(v)\<close>, the text an f-string or \<^verbatim>\<open>print\<close> formats \<open>v\<close> to, can be
  printed: a string is printed as it is, any other value as its \<^verbatim>\<open>repr\<close>.\<close>

definition str_ok :: "console \<Rightarrow> pyval \<Rightarrow> bool" where
  "str_ok con v = (case v of PStr s \<Rightarrow> text_ok con s | _ \<Rightarrow> repr_ok con v)"

text \<open>
  One \<^verbatim>\<open>print\<close> of a line whose literal text is ASCII, with the bullet when the flag
  is set, and whose formatted values are \<open>vs\<close>.
\<close>

definition py_print :: "console \<Rightarrow> bool \<Rightarrow> pyval list \<Rightarrow> py_exn + unit" where
  "py_print con bullet vs =
     (if (if bullet then encodes_bullet con else True) \<and> list_all (str_ok con) vs
      then Inr () else Inl UnicodeEncodeError)"

section \<open>The machine the actions run on\<close>

text \<open>
  A process of the table answers each call \<^verbatim>\<open>kill_process\<close> and
  \<^verbatim>\<open>stop_onedrive_processes\<close> make on a \<^verbatim>\<open>psutil.Process\<close>: \<open>None\<close> in an
  option field is a call that returns, \<open>Some e\<close> one that raises \<open>e\<close>.
\<close>

record proc =
  p_name :: "py_exn + string"
  p_terminate :: "py_exn option"
  p_wait_terminated :: "py_exn option"
  p_kill :: "py_exn option"
  p_wait_killed :: "py_exn option"

datatype proc_call = Terminate | Wait nat | Kill

text \<open>
  A file of the temp directory: what \<^verbatim>\<open>os.stat\<close> gives (modification time and size;
  \<open>None\<close> when it raises) and whether \<^verbatim>\<open>os.remove\<close> succeeds.
\<close>

record tfile =
  f_path :: string
  f_stat :: "(real \<times> nat) option"
  f_removable :: bool

datatype executor_call =
    Call_kill_process pyval
  | Call_clean_user_temp int
  | Call_stop_onedrive_processes

text \<open>
  The state the fix mode reads and changes: the lines still unread on standard input,
  the process table, the files below the temp directory in \<^verbatim>\<open>os.walk\<close> order, the
  clock, and three logs: the executors entered, the calls made on processes, and the
  paths given to \<^verbatim>\<open>os.remove\<close>. The machine also fixes the console behind standard
  output and the float subtraction: \<open>float_sub w x n\<close> is the double that \<^verbatim>\<open>x - n\<close>
  rounds to, for a float \<open>x\<close> and an integer \<open>n\<close> in the range of a double.
\<close>

record world =
  stdin :: "string list"
  procs :: "(int \<times> proc) list"
  files :: "tfile list"
  clock :: real
  temp_dir :: string
  calls :: "executor_call list"
  signals :: "(int \<times> proc_call) list"
  removals :: "string list"
  console :: console
  float_sub :: "real \<Rightarrow> int \<Rightarrow> real"

section \<open>Action executors\<close>

text \<open>
  The message of an outcome, one constructor for each string the source builds:
  \<^verbatim>\<open>f"Terminated {name} (pid {pid})"\<close>, \<^verbatim>\<open>f"Killed {name} (pid {pid})"\<close>,
  \<^verbatim>\<open>f"Process {pid} not found: {e}"\<close>,
  \<^verbatim>\<open>"Access denied. Try running PowerShell as Administrator."\<close> and \<^verbatim>\<open>str(e)\<close>.
\<close>

datatype message =
    Terminated_msg string pyval
  | Killed_msg string pyval
  | Not_found_msg pyval py_exn
  | Access_denied_msg
  | Exception_msg py_exn

text \<open>The literal text a message starts with.\<close>

fun message_head :: "message \<Rightarrow> string" where
  "message_head (Terminated_msg name pid) = ''Terminated ''"
| "message_head (Killed_msg name pid) = ''Killed ''"
| "message_head (Not_found_msg pid e) = ''Process ''"
| "message_head Access_denied_msg = ''Access denied. Try running PowerShell as Administrator.''"
| "message_head (Exception_msg e) = []"

text \<open>The three \<^verbatim>\<open>except\<close> clauses of \<^verbatim>\<open>kill_process\<close>, in their order. The first,
  \<^verbatim>\<open>except (psutil.NoSuchProcess, ValueError)\<close>, also takes the subclass
  \<^verbatim>\<open>UnicodeEncodeError\<close>.\<close>

definition handle_kill_exn :: "pyval \<Rightarrow> py_exn \<Rightarrow> bool \<times> message" where
  "handle_kill_exn pid e =
     (if e = NoSuchProcess \<or> e = ValueError \<or> e = UnicodeEncodeError
      then (False, Not_found_msg pid e)
      else if e = AccessDenied then (False, Access_denied_msg)
      else (False, Exception_msg e))"

text \<open>\<^verbatim>\<open>psutil.Process(n)\<close>: a negative pid is a \<^verbatim>\<open>ValueError\<close>, an absent one
  \<^verbatim>\<open>NoSuchProcess\<close>.\<close>

definition psutil_Process :: "(int \<times> proc) list \<Rightarrow> int \<Rightarrow> py_exn + proc" where
  "psutil_Process table n =
     (if n < 0 then Inl ValueError
      else case map_of table n of None \<Rightarrow> Inl NoSuchProcess | Some p \<Rightarrow> Inr p)"

definition signal :: "int \<Rightarrow> proc_call \<Rightarrow> world \<Rightarrow> world" where
  "signal n c w = w\<lparr>signals := signals w @ [(n, c)]\<rparr>"

text \<open>A process whose \<^verbatim>\<open>wait\<close> returned has exited and leaves the table.\<close>

definition reap :: "int \<Rightarrow> world \<Rightarrow> world" where
  "reap n w = w\<lparr>procs := filter (\<lambda>kp. fst kp \<noteq> n) (procs w)\<rparr>"

text \<open>
  Between reading the name and \<^verbatim>\<open>terminate()\<close>, \<^verbatim>\<open>kill_process\<close> prints
  \<^verbatim>\<open>f"Attempting to terminate {name} (pid {pid}) ..."\<close> inside the \<^verbatim>\<open>try\<close>
  block, so that an exception of \<^verbatim>\<open>print\<close> reaches the \<^verbatim>\<open>except\<close> clauses. The
  two lines printed after a wait returned are ASCII. The inner \<^verbatim>\<open>try\<close> catches only
  the timeout of the first wait.
\<close>

definition kill_process :: "pyval \<Rightarrow> world \<Rightarrow> (bool \<times> message) \<times> world" where
  "kill_process pid w0 =
     (let w = w0\<lparr>calls := calls w0 @ [Call_kill_process pid]\<rparr> in
      case py_int_of pid of
        Inl e \<Rightarrow> (handle_kill_exn pid e, w)
      | Inr n \<Rightarrow>
          (case psutil_Process (procs w) n of
             Inl e \<Rightarrow> (handle_kill_exn pid e, w)
           | Inr p \<Rightarrow>
               (case p_name p of
                  Inl e \<Rightarrow> (handle_kill_exn pid e, w)
                | Inr name \<Rightarrow>
                    (case py_print (console w) False [PStr name, pid] of
                       Inl e \<Rightarrow> (handle_kill_exn pid e, w)
                     | Inr u \<Rightarrow>
                    (let w1 = signal n Terminate w in
                     case p_terminate p of
                       Some e \<Rightarrow> (handle_kill_exn pid e, w1)
                     | None \<Rightarrow>
                         (let w2 = signal n (Wait 5) w1 in
                          case p_wait_terminated p of
                            None \<Rightarrow> ((True, Terminated_msg name pid), reap n w2)
                          | Some e \<Rightarrow>
                              if e = TimeoutExpired then
                                (let w3 = signal n Kill w2 in
                                 case p_kill p of
                                   Some e' \<Rightarrow> (handle_kill_exn pid e', w3)
                                 | None \<Rightarrow>
                                     (let w4 = signal n (Wait 3) w3 in
                                      case p_wait_killed p of
                                        None \<Rightarrow> ((True, Killed_msg name pid), reap n w4)
                                      | Some e' \<Rightarrow> (handle_kill_exn pid e', w4)))
                              else (handle_kill_exn pid e, w2)))))))"

text \<open>
  The loop body of \<^verbatim>\<open>clean_user_temp\<close> on one file; the state is the two counters,
  the paths given to \<^verbatim>\<open>os.remove\<close> and the files left behind. Any exception
  (\<^verbatim>\<open>getmtime\<close>, \<^verbatim>\<open>getsize\<close>, \<^verbatim>\<open>remove\<close>) skips the file.
\<close>

record clean_state =
  deleted_files :: nat
  deleted_bytes :: nat
  attempted :: "string list"
  kept :: "tfile list"

definition clean_step :: "real \<Rightarrow> clean_state \<Rightarrow> tfile \<Rightarrow> clean_state" where
  "clean_step cutoff st f =
     (case f_stat f of
        None \<Rightarrow> st\<lparr>kept := kept st @ [f]\<rparr>
      | Some (mtime, sz) \<Rightarrow>
          if mtime < cutoff then
            (if f_removable f
             then st\<lparr>deleted_files := deleted_files st + 1,
                     deleted_bytes := deleted_bytes st + sz,
                     attempted := attempted st @ [f_path f]\<rparr>
             else st\<lparr>attempted := attempted st @ [f_path f], kept := kept st @ [f]\<rparr>)
          else st\<lparr>kept := kept st @ [f]\<rparr>)"

definition clean_init :: clean_state where
  "clean_init = \<lparr>deleted_files = 0, deleted_bytes = 0, attempted = [], kept = []\<rparr>"

text \<open>
  \<^verbatim>\<open>x - n\<close> for a float \<open>x\<close> and an integer \<open>n\<close> converts \<open>n\<close> to a double first. The
  conversion raises \<^verbatim>\<open>OverflowError\<close> when \<open>n\<close> rounds beyond the largest double,
  that is from \<open>2 ^ 1024 - 2 ^ 970\<close> on; zero converts to \<open>0.0\<close>, and \<open>x - 0.0\<close> is
  \<open>x\<close>.
\<close>

definition double_overflow :: "int \<Rightarrow> bool" where
  "double_overflow n = (2 ^ 1024 - 2 ^ 970 \<le> \<bar>n\<bar>)"

definition py_float_sub :: "world \<Rightarrow> real \<Rightarrow> int \<Rightarrow> py_exn + real" where
  "py_float_sub w x n =
     (if double_overflow n then Inl OverflowError
      else if n = 0 then Inr x
      else Inr (float_sub w x n))"

text \<open>\<^verbatim>\<open>cutoff = now_ts - (older_than_days * 86400)\<close>: the product is an exact integer.\<close>

definition cutoff_of :: "world \<Rightarrow> int \<Rightarrow> py_exn + real" where
  "cutoff_of w older_than_days = py_float_sub w (clock w) (older_than_days * 86400)"

text \<open>The cutoff is computed before the walk, outside the \<^verbatim>\<open>try\<close> of the loop body: its
  exception leaves \<^verbatim>\<open>clean_user_temp\<close> with no file looked at.\<close>

definition clean_user_temp :: "int \<Rightarrow> world \<Rightarrow> (py_exn + nat \<times> nat \<times> string) \<times> world" where
  "clean_user_temp older_than_days w0 =
     (let w = w0\<lparr>calls := calls w0 @ [Call_clean_user_temp older_than_days]\<rparr> in
      case cutoff_of w older_than_days of
        Inl e \<Rightarrow> (Inl e, w)
      | Inr cutoff \<Rightarrow>
          (let st = foldl (clean_step cutoff) clean_init (files w)
           in (Inr (deleted_files st, deleted_bytes st, temp_dir w),
               w\<lparr>files := kept st, removals := removals w @ attempted st\<rparr>)))"

text \<open>
  The loop body of \<^verbatim>\<open>stop_onedrive_processes\<close>; \<^verbatim>\<open>p.info\<close> holds \<open>None\<close> for a
  name that could not be read.
\<close>

definition info_name :: "proc \<Rightarrow> string option" where
  "info_name p = (case p_name p of Inl e \<Rightarrow> None | Inr s \<Rightarrow> Some s)"

type_synonym stop_state = "(int \<times> string option) list \<times> (int \<times> py_exn) list \<times> world"

definition stop_step :: "stop_state \<Rightarrow> int \<times> proc \<Rightarrow> stop_state" where
  "stop_step st kp =
     (case st of (stopped, failed, w) \<Rightarrow>
      case kp of (n, p) \<Rightarrow>
        if startswith (lower (case info_name p of None \<Rightarrow> [] | Some s \<Rightarrow> s)) ''onedrive''
        then
          (let w1 = signal n Terminate w in
           case p_terminate p of
             Some e \<Rightarrow> (stopped, failed @ [(n, e)], w1)
           | None \<Rightarrow>
               (let w2 = signal n (Wait 5) w1 in
                case p_wait_terminated p of
                  Some e \<Rightarrow> (stopped, failed @ [(n, e)], w2)
                | None \<Rightarrow> (stopped @ [(n, info_name p)], failed, reap n w2)))
        else st)"

definition stop_onedrive_processes ::
  "world \<Rightarrow> ((int \<times> string option) list \<times> (int \<times> py_exn) list) \<times> world" where
  "stop_onedrive_processes w0 =
     (let w = w0\<lparr>calls := calls w0 @ [Call_stop_onedrive_processes]\<rparr> in
      case foldl stop_step ([], [], w) (procs w) of
        (stopped, failed, w') \<Rightarrow> ((stopped, failed), w'))"

section \<open>Confirmation gate\<close>

text \<open>
  \<^verbatim>\<open>input()\<close> takes the next line of standard input; at end of input it raises
  \<^verbatim>\<open>EOFError\<close>.
\<close>

definition py_input :: "world \<Rightarrow> (py_exn + string) \<times> world" where
  "py_input w =
     (case stdin w of
        [] \<Rightarrow> (Inl EOFError, w)
      | l # ls \<Rightarrow> (Inr l, w\<lparr>stdin := ls\<rparr>))"

text \<open>
  The loop of \<^verbatim>\<open>confirm\<close>, on the unread lines: the answer and the lines left. An
  answer that is neither \<^verbatim>\<open>y\<close>, \<^verbatim>\<open>n\<close> nor empty asks again.
\<close>

fun confirm :: "string list \<Rightarrow> (py_exn + bool) \<times> string list" where
  "confirm [] = (Inl EOFError, [])"
| "confirm (l # ls) =
     (let ans = lower (strip l) in
      if ans = ''y'' then (Inr True, ls)
      else if ans = ''n'' \<or> ans = [] then (Inr False, ls)
      else confirm ls)"

datatype menu_text = Terminate_text pyval pyval | Literal_text string

type_synonym suggestion = "string \<times> menu_text \<times> pyval"

text \<open>
  The body of \<^verbatim>\<open>interactive_fix\<close> after an action is selected. The result is the
  exception that escapes, if any, and the world reached. Of the output of the fix mode
  only the line \<^verbatim>\<open>kill_process\<close> prints is modelled; the menu, the prompts and the
  outcome lines are not.
\<close>

definition run_action :: "suggestion \<Rightarrow> world \<Rightarrow> py_exn option \<times> world" where
  "run_action action w =
     (case action of (code, text, data) \<Rightarrow>
      if code = ''kill_process'' then
        (case (if data = PNone
               then (case py_input w of
                       (Inl e, w') \<Rightarrow> (Inl e, w')
                     | (Inr l, w') \<Rightarrow> (Inr (PStr (strip l)), w'))
               else (Inr data, w)) of
           (Inl e, w1) \<Rightarrow> (Some e, w1)
         | (Inr pid, w1) \<Rightarrow>
             (case confirm (stdin w1) of
                (Inl e, rest) \<Rightarrow> (Some e, w1\<lparr>stdin := rest\<rparr>)
              | (Inr ok, rest) \<Rightarrow>
                  if ok then (None, snd (kill_process pid (w1\<lparr>stdin := rest\<rparr>)))
                  else (None, w1\<lparr>stdin := rest\<rparr>)))
      else if code = ''clean_temp'' then
        (case py_input w of
           (Inl e, w1) \<Rightarrow> (Some e, w1)
         | (Inr l, w1) \<Rightarrow>
             (let days_str = (if strip l = [] then ''3'' else strip l);
                  days = (case py_int days_str of None \<Rightarrow> 3 | Some d \<Rightarrow> d)
              in case confirm (stdin w1) of
                   (Inl e, rest) \<Rightarrow> (Some e, w1\<lparr>stdin := rest\<rparr>)
                 | (Inr ok, rest) \<Rightarrow>
                     if ok then
                       (case clean_user_temp days (w1\<lparr>stdin := rest\<rparr>) of
                          (Inl e, w2) \<Rightarrow> (Some e, w2)
                        | (Inr res, w2) \<Rightarrow> (None, w2))
                     else (None, w1\<lparr>stdin := rest\<rparr>)))
      else if code = ''stop_onedrive'' then
        (case confirm (stdin w) of
           (Inl e, rest) \<Rightarrow> (Some e, w\<lparr>stdin := rest\<rparr>)
         | (Inr ok, rest) \<Rightarrow>
             if ok then (None, snd (stop_onedrive_processes (w\<lparr>stdin := rest\<rparr>)))
             else (None, w\<lparr>stdin := rest\<rparr>))
      else (None, w))"

text \<open>
  The menu of \<^verbatim>\<open>interactive_fix\<close>. Every exception of the selection prompt, end of
  input included, is caught there and the function returns.
\<close>

definition read_choice :: "string \<Rightarrow> int option" where
  "read_choice l = py_int (if strip l = [] then ''0'' else strip l)"

definition interactive_fix :: "suggestion list \<Rightarrow> world \<Rightarrow> py_exn option \<times> world" where
  "interactive_fix suggestions w =
     (if suggestions = [] then (None, w)
      else case py_input w of
             (Inl e, w1) \<Rightarrow> (None, w1)
           | (Inr l, w1) \<Rightarrow>
               (case read_choice l of
                  None \<Rightarrow> (None, w1)
                | Some choice \<Rightarrow>
                    if choice = 0 then (None, w1)
                    else if \<not> (1 \<le> choice \<and> choice \<le> int (length suggestions)) then (None, w1)
                    else run_action (suggestions ! nat (choice - 1)) w1))"

section \<open>Dynamic operations on values\<close>

fun truthy :: "pyval \<Rightarrow> bool" where
  "truthy PNone = False"
| "truthy (PBool b) = b"
| "truthy (PInt i) = (i \<noteq> 0)"
| "truthy (PFloat x) = (x \<noteq> 0)"
| "truthy (PStr s) = (s \<noteq> [])"
| "truthy (PList xs) = (xs \<noteq> [])"
| "truthy (PDict kvs) = (kvs \<noteq> [])"

definition py_or :: "pyval \<Rightarrow> pyval \<Rightarrow> pyval" where
  "py_or a b = (if truthy a then a else b)"

text \<open>\<^verbatim>\<open>x.get(k, d)\<close>: only a dictionary has the method.\<close>

fun py_get :: "pyval \<Rightarrow> string \<Rightarrow> pyval \<Rightarrow> py_exn + pyval" where
  "py_get (PDict kvs) k d = Inr (case map_of kvs k of None \<Rightarrow> d | Some v \<Rightarrow> v)"
| "py_get PNone k d = Inl AttributeError"
| "py_get (PBool b) k d = Inl AttributeError"
| "py_get (PInt i) k d = Inl AttributeError"
| "py_get (PFloat x) k d = Inl AttributeError"
| "py_get (PStr s) k d = Inl AttributeError"
| "py_get (PList xs) k d = Inl AttributeError"

text \<open>The value of \<^verbatim>\<open>v\<close> when \<^verbatim>\<open>isinstance(v, (int, float))\<close>; \<^verbatim>\<open>bool\<close> is a subclass
  of \<^verbatim>\<open>int\<close>.\<close>

fun num_of :: "pyval \<Rightarrow> real option" where
  "num_of (PInt i) = Some (real_of_int i)"
| "num_of (PFloat x) = Some x"
| "num_of (PBool b) = Some (if b then 1 else 0)"
| "num_of PNone = None"
| "num_of (PStr s) = None"
| "num_of (PList xs) = None"
| "num_of (PDict kvs) = None"

text \<open>\<^verbatim>\<open>v > c\<close> for a number \<open>c\<close>: anything but a number raises \<^verbatim>\<open>TypeError\<close>.\<close>

definition py_gt :: "pyval \<Rightarrow> real \<Rightarrow> py_exn + bool" where
  "py_gt v c = (case num_of v of None \<Rightarrow> Inl TypeError | Some x \<Rightarrow> Inr (c < x))"

text \<open>\<^verbatim>\<open>x[:k]\<close> for a constant \<open>k\<close>. A dictionary raises (\<^verbatim>\<open>TypeError\<close> before
  Python 3.12, \<^verbatim>\<open>KeyError\<close> since).\<close>

fun py_slice_to :: "pyval \<Rightarrow> nat \<Rightarrow> py_exn + pyval" where
  "py_slice_to (PList xs) k = Inr (PList (take k xs))"
| "py_slice_to (PStr s) k = Inr (PStr (take k s))"
| "py_slice_to PNone k = Inl TypeError"
| "py_slice_to (PBool b) k = Inl TypeError"
| "py_slice_to (PInt i) k = Inl TypeError"
| "py_slice_to (PFloat x) k = Inl TypeError"
| "py_slice_to (PDict kvs) k = Inl TypeError"

text \<open>The elements a \<^verbatim>\<open>for\<close> loop runs over.\<close>

fun py_iter :: "pyval \<Rightarrow> py_exn + pyval list" where
  "py_iter (PList xs) = Inr xs"
| "py_iter (PStr s) = Inr (map (\<lambda>c. PStr [c]) s)"
| "py_iter (PDict kvs) = Inr (map (\<lambda>kv. PStr (fst kv)) kvs)"
| "py_iter PNone = Inl TypeError"
| "py_iter (PBool b) = Inl TypeError"
| "py_iter (PInt i) = Inl TypeError"
| "py_iter (PFloat x) = Inl TypeError"

text \<open>\<^verbatim>\<open>d[k] = v\<close> on a dictionary in insertion order.\<close>

fun dict_set :: "string \<Rightarrow> pyval \<Rightarrow> (string \<times> pyval) list \<Rightarrow> (string \<times> pyval) list" where
  "dict_set k v [] = [(k, v)]"
| "dict_set k v (kv # kvs) = (if fst kv = k then (k, v) # kvs else kv # dict_set k v kvs)"

definition bind_e :: "'e + 'a \<Rightarrow> ('a \<Rightarrow> 'e + 'b) \<Rightarrow> 'e + 'b" where
  "bind_e m f = (case m of Inl e \<Rightarrow> Inl e | Inr x \<Rightarrow> f x)"

section \<open>Snapshot provider\<close>

text \<open>
  What the calls into \<^verbatim>\<open>psutil\<close> give; \<open>Inl msg\<close> is a call that raises an exception
  with text \<open>msg\<close>.
\<close>

record vm =
  vm_total :: nat
  vm_available :: nat
  vm_used :: nat
  vm_percent :: real

record cpu_data =
  physical_cores :: "int option"
  logical_processors :: "int option"
  cpu_percent_per_cpu :: "real list"
  cpu_percent_overall :: real

record usage =
  u_total :: nat
  u_used :: nat
  u_free :: nat
  u_percent :: real

record partition =
  device :: string
  mountpoint :: string
  fstype :: string
  disk_usage :: "string + usage"

record proc_info =
  pi_pid :: int
  pi_name :: "string option"
  pi_username :: "string option"
  pi_memory_info :: "nat option"
  pi_cpu_percent :: "real option"

record ping_run =
  returncode :: int
  stdout :: string
  stderr :: string

record provider =
  virtual_memory :: "string + vm"
  cpu_stats :: "string + cpu_data"
  disk_partitions :: "string + partition list"
  process_iter :: "string + proc_info list"

text \<open>
  The environment of a run: \<^verbatim>\<open>psutil\<close> is \<open>None\<close> when the import failed. The system
  and network sections are taken as the dictionaries their collectors build.
\<close>

record env =
  psutil :: "provider option"
  system_info :: "(string \<times> pyval) list"
  network_info :: "(string \<times> pyval) list"
  subprocess_ping :: "string \<Rightarrow> string + ping_run"
  report_writable :: bool

record args =
  report_path :: string
  ping :: "string list"
  top_processes_n :: int
  fix_mode :: bool

definition opt_val :: "('a \<Rightarrow> pyval) \<Rightarrow> 'a option \<Rightarrow> pyval" where
  "opt_val f x = (case x of None \<Rightarrow> PNone | Some v \<Rightarrow> f v)"

definition error_dict :: "string \<Rightarrow> pyval" where
  "error_dict msg = PDict [(''error'', PStr msg)]"

definition cpu_info :: "provider \<Rightarrow> pyval" where
  "cpu_info pr =
     (case cpu_stats pr of
        Inl msg \<Rightarrow> error_dict msg
      | Inr c \<Rightarrow>
          PDict [(''physical_cores'', opt_val PInt (physical_cores c)),
                 (''logical_processors'', opt_val PInt (logical_processors c)),
                 (''cpu_percent_per_cpu'', PList (map PFloat (cpu_percent_per_cpu c))),
                 (''cpu_percent_overall'', PFloat (cpu_percent_overall c))])"

definition memory_info :: "provider \<Rightarrow> pyval" where
  "memory_info pr =
     (case virtual_memory pr of
        Inl msg \<Rightarrow> error_dict msg
      | Inr v \<Rightarrow>
          PDict [(''total'', PInt (int (vm_total v))), (''available'', PInt (int (vm_available v))),
                 (''used'', PInt (int (vm_used v))), (''percent'', PFloat (vm_percent v))])"

definition disk_entry :: "partition \<Rightarrow> pyval" where
  "disk_entry p =
     (case disk_usage p of
        Inl msg \<Rightarrow> PDict [(''device'', PStr (device p)), (''error'', PStr msg)]
      | Inr u \<Rightarrow>
          PDict [(''device'', PStr (device p)), (''mountpoint'', PStr (mountpoint p)),
                 (''fstype'', PStr (fstype p)), (''total'', PInt (int (u_total u))),
                 (''used'', PInt (int (u_used u))), (''free'', PInt (int (u_free u))),
                 (''percent'', PFloat (u_percent u))])"

definition disk_info :: "provider \<Rightarrow> pyval list" where
  "disk_info pr =
     (case disk_partitions pr of
        Inl msg \<Rightarrow> [error_dict msg]
      | Inr ps \<Rightarrow> map disk_entry ps)"

definition proc_dict :: "proc_info \<Rightarrow> pyval" where
  "proc_dict p =
     PDict [(''pid'', PInt (pi_pid p)), (''name'', opt_val PStr (pi_name p)),
            (''user'', opt_val PStr (pi_username p)),
            (''memory_rss'', opt_val (\<lambda>r. PInt (int r)) (pi_memory_info p)),
            (''cpu_percent'', opt_val PFloat (pi_cpu_percent p))]"

text \<open>The sort key \<^verbatim>\<open>x.get('memory_rss') or 0\<close> of \<^verbatim>\<open>top_processes\<close>.\<close>

definition rss_key :: "pyval \<Rightarrow> int" where
  "rss_key x =
     (case py_get x ''memory_rss'' PNone of
        Inr (PInt i) \<Rightarrow> i
      | _ \<Rightarrow> 0)"

text \<open>
  \<^verbatim>\<open>sorted(xs, key=f, reverse=True)\<close>: Python reverses the list, sorts it stably in
  ascending order and reverses the result, so equal keys keep their order.
\<close>

definition sorted_reverse :: "('a \<Rightarrow> 'k::linorder) \<Rightarrow> 'a list \<Rightarrow> 'a list" where
  "sorted_reverse f xs = rev (sort_key f (rev xs))"

text \<open>\<^verbatim>\<open>xs[:n]\<close> for an integer \<open>n\<close>; a negative \<open>n\<close> counts from the end.\<close>

definition slice_to :: "int \<Rightarrow> 'a list \<Rightarrow> 'a list" where
  "slice_to n xs = (if 0 \<le> n then take (nat n) xs else take (length xs - nat (- n)) xs)"

definition top_processes :: "int \<Rightarrow> provider \<Rightarrow> pyval list" where
  "top_processes n pr =
     (case process_iter pr of
        Inl msg \<Rightarrow> [error_dict msg]
      | Inr ps \<Rightarrow> slice_to n (sorted_reverse rss_key (map proc_dict ps)))"

definition ping_host :: "env \<Rightarrow> string \<Rightarrow> pyval" where
  "ping_host e host =
     (case subprocess_ping e host of
        Inl msg \<Rightarrow> error_dict msg
      | Inr r \<Rightarrow>
          PDict [(''returncode'', PInt (returncode r)), (''stdout'', PStr (stdout r)),
                 (''stderr'', PStr (stderr r))])"

definition run_checks :: "args \<Rightarrow> env \<Rightarrow> pyval" where
  "run_checks a e =
     (case psutil e of
        None \<Rightarrow> error_dict ''psutil not installed. run `pip install -r requirements.txt`''
      | Some pr \<Rightarrow>
          PDict [(''system'', PDict (system_info e)),
                 (''network'', PDict (network_info e)),
                 (''cpu'', cpu_info pr),
                 (''memory'', memory_info pr),
                 (''disks'', PList (disk_info pr)),
                 (''top_processes'', PList (top_processes (top_processes_n a) pr)),
                 (''pings'', PDict (foldl (\<lambda>d h. dict_set h (ping_host e h) d) [] (ping a)))])"

section \<open>Rule engine\<close>

text \<open>
  \<^verbatim>\<open>suggest_actions\<close> prints its findings and returns the suggestions. The printed
  advice is kept as the list of the findings that were reported. A line that formats
  only numbers is ASCII and always printed; the lines with the bullet, with a name, a
  mount point or a host are printed with \<open>py_print\<close>, outside any \<^verbatim>\<open>try\<close>.
\<close>

datatype finding =
  Memory_high | Cpu_high | Disk_high | Background_sync_detected | Network_unreachable

type_synonym advice = "finding list \<times> suggestion list"

text \<open>The two loops over the top three processes: each calls \<^verbatim>\<open>p.get\<close>. The first
  prints \<^verbatim>\<open>f"    \<bullet> {name} (pid {pid}) ~ {mb} MB"\<close>, where \<^verbatim>\<open>mb\<close> is a number or
  \<^verbatim>\<open>"?"\<close>.\<close>

fun announce_top :: "console \<Rightarrow> pyval list \<Rightarrow> py_exn + unit" where
  "announce_top con [] = Inr ()"
| "announce_top con (p # ps) =
     bind_e (py_get p ''name'' PNone) (\<lambda>name.
     bind_e (py_get p ''pid'' PNone) (\<lambda>pid.
     bind_e (py_print con True [py_or name (PStr ''<unknown>''), pid]) (\<lambda>u.
       announce_top con ps)))"

fun kill_suggestions :: "pyval list \<Rightarrow> py_exn + suggestion list" where
  "kill_suggestions [] = Inr []"
| "kill_suggestions (p # ps) =
     bind_e (py_get p ''name'' PNone) (\<lambda>name.
     bind_e (py_get p ''pid'' PNone) (\<lambda>pid.
     bind_e (kill_suggestions ps) (\<lambda>rest.
       Inr ((''kill_process'', Terminate_text name pid, pid) # rest))))"

definition memory_check :: "console \<Rightarrow> pyval \<Rightarrow> py_exn + advice" where
  "memory_check con report =
     bind_e (py_get report ''memory'' (PDict [])) (\<lambda>mem.
     bind_e (py_get mem ''percent'' PNone) (\<lambda>mem_pct.
       if (case num_of mem_pct of None \<Rightarrow> False | Some x \<Rightarrow> 80 < x) then
         bind_e (py_get report ''top_processes'' (PList [])) (\<lambda>tp.
         bind_e (py_slice_to tp 3) (\<lambda>top.
         bind_e (py_iter top) (\<lambda>ps.
         bind_e (announce_top con ps) (\<lambda>u.
         bind_e (kill_suggestions ps) (\<lambda>sg. Inr ([Memory_high], sg))))))
       else Inr ([], [])))"

definition cpu_check :: "pyval \<Rightarrow> py_exn + advice" where
  "cpu_check report =
     bind_e (py_get report ''cpu'' (PDict [])) (\<lambda>cpu.
     bind_e (py_get cpu ''cpu_percent_overall'' PNone) (\<lambda>cpu_overall.
       if (case num_of cpu_overall of None \<Rightarrow> False | Some x \<Rightarrow> 85 < x)
       then Inr ([Cpu_high], []) else Inr ([], [])))"

text \<open>The filter \<^verbatim>\<open>isinstance(d, dict) and d.get("percent") and d.get("percent") > 90\<close>.\<close>

fun disk_is_high :: "pyval \<Rightarrow> py_exn + bool" where
  "disk_is_high (PDict kvs) =
     (let pc = (case map_of kvs ''percent'' of None \<Rightarrow> PNone | Some v \<Rightarrow> v)
      in if truthy pc then py_gt pc 90 else Inr False)"
| "disk_is_high PNone = Inr False"
| "disk_is_high (PBool b) = Inr False"
| "disk_is_high (PInt i) = Inr False"
| "disk_is_high (PFloat x) = Inr False"
| "disk_is_high (PStr s) = Inr False"
| "disk_is_high (PList xs) = Inr False"

fun high_disks :: "pyval list \<Rightarrow> py_exn + pyval list" where
  "high_disks [] = Inr []"
| "high_disks (d # ds) =
     bind_e (disk_is_high d) (\<lambda>h.
     bind_e (high_disks ds) (\<lambda>rest. Inr (if h then d # rest else rest)))"

text \<open>The loop that prints \<^verbatim>\<open>f"  \<bullet> {d.get('mountpoint')} {d.get('percent')}% used"\<close>.\<close>

fun announce_disks :: "console \<Rightarrow> pyval list \<Rightarrow> py_exn + unit" where
  "announce_disks con [] = Inr ()"
| "announce_disks con (d # ds) =
     bind_e (py_get d ''mountpoint'' PNone) (\<lambda>mp.
     bind_e (py_get d ''percent'' PNone) (\<lambda>pc.
     bind_e (py_print con True [mp, pc]) (\<lambda>u.
       announce_disks con ds)))"

definition disk_check :: "console \<Rightarrow> pyval \<Rightarrow> py_exn + advice" where
  "disk_check con report =
     bind_e (py_get report ''disks'' (PList [])) (\<lambda>disks.
     bind_e (py_iter disks) (\<lambda>ds.
     bind_e (high_disks ds) (\<lambda>hd.
       if hd \<noteq> []
       then bind_e (announce_disks con hd) (\<lambda>u.
              Inr ([Disk_high],
                   [(''clean_temp'', Literal_text ''Clean user temporary files older than X days'', PNone)]))
       else Inr ([], []))))"

text \<open>\<^verbatim>\<open>any((p.get("name") or "").lower().startswith("onedrive") for p in ...)\<close>, which stops
  at the first match.\<close>

fun any_onedrive :: "pyval list \<Rightarrow> py_exn + bool" where
  "any_onedrive [] = Inr False"
| "any_onedrive (p # ps) =
     bind_e (py_get p ''name'' PNone) (\<lambda>name.
       case py_or name (PStr []) of
         PStr s \<Rightarrow> if startswith (lower s) ''onedrive'' then Inr True else any_onedrive ps
       | _ \<Rightarrow> Inl AttributeError)"

definition onedrive_check :: "pyval \<Rightarrow> py_exn + advice" where
  "onedrive_check report =
     bind_e (py_get report ''top_processes'' (PList [])) (\<lambda>tp.
     bind_e (py_iter tp) (\<lambda>ps.
     bind_e (any_onedrive ps) (\<lambda>present.
       if present
       then Inr ([Background_sync_detected],
                 [(''stop_onedrive'', Literal_text ''Stop OneDrive process (pause syncing)'', PNone)])
       else Inr ([], []))))"

text \<open>A ping result counts as reachable when it is a dictionary whose return code
  equals 0.\<close>

definition reachable :: "pyval \<Rightarrow> bool" where
  "reachable r =
     (case r of
        PDict kvs \<Rightarrow> (case map_of kvs ''returncode'' of None \<Rightarrow> False | Some v \<Rightarrow> num_of v = Some 0)
      | _ \<Rightarrow> False)"

text \<open>The line for the unreachable hosts joins their names.\<close>

definition network_check :: "console \<Rightarrow> pyval \<Rightarrow> py_exn + advice" where
  "network_check con report =
     bind_e (py_get report ''pings'' (PDict [])) (\<lambda>pings.
       case pings of
         PDict kvs \<Rightarrow>
           (let unreachable = filter (\<lambda>hr. \<not> reachable (snd hr)) kvs in
            if unreachable \<noteq> []
            then bind_e (py_print con False (map (\<lambda>hr. PStr (fst hr)) unreachable)) (\<lambda>u.
                   Inr ([Network_unreachable], []))
            else Inr ([], []))
       | _ \<Rightarrow> Inl AttributeError)"

definition suggest_actions :: "console \<Rightarrow> pyval \<Rightarrow> py_exn + advice" where
  "suggest_actions con report =
     bind_e (memory_check con report) (\<lambda>m.
     bind_e (cpu_check report) (\<lambda>c.
     bind_e (disk_check con report) (\<lambda>d.
     bind_e (onedrive_check report) (\<lambda>od.
     bind_e (network_check con report) (\<lambda>n.
       Inr (fst m @ fst c @ fst d @ fst od @ fst n, snd m @ snd c @ snd d @ snd od @ snd n))))))"

section \<open>The logging variant\<close>

text \<open>
  \<^verbatim>\<open>collect_basic_report\<close> of \<^verbatim>\<open>helpdesk_logging.py\<close> sorts the tuples
  \<^verbatim>\<open>(mem_rss, pid, name)\<close> themselves with \<^verbatim>\<open>procs.sort(reverse=True)\<close> and keeps three.
  Tuples compare lexicographically. A name that is \<open>None\<close> is ordered below every string
  here; Python raises on that comparison, which is only reached by two entries with the
  same memory and the same pid.
\<close>

definition logging_tuple :: "proc_info \<Rightarrow> nat \<times> int \<times> string option" where
  "logging_tuple p = (case pi_memory_info p of None \<Rightarrow> 0 | Some r \<Rightarrow> r, pi_pid p, pi_name p)"

definition logging_top_processes :: "proc_info list \<Rightarrow> (nat \<times> int \<times> string option) list" where
  "logging_top_processes ps = take 3 (sorted_reverse (\<lambda>t. t) (map logging_tuple ps))"

section \<open>Orchestration\<close>

text \<open>
  \<^verbatim>\<open>pretty_print_summary\<close>: the accesses that can raise and the lines it prints, none
  of them inside a \<^verbatim>\<open>try\<close>. The loop over the first five processes prints
  \<^verbatim>\<open>f"  {name} (pid {pid}) memory={mem_mb} MB"\<close>, where \<^verbatim>\<open>mem_mb\<close> is a number,
  \<^verbatim>\<open>None\<close> or \<^verbatim>\<open>"?"\<close>.
\<close>

fun print_each :: "console \<Rightarrow> pyval list \<Rightarrow> py_exn + unit" where
  "print_each con [] = Inr ()"
| "print_each con (p # ps) =
     bind_e (py_get p ''name'' PNone) (\<lambda>name.
     bind_e (py_get p ''pid'' PNone) (\<lambda>pid.
     bind_e (py_get p ''memory_rss'' PNone) (\<lambda>mem_bytes.
     bind_e (py_print con False [py_or name (PStr ''<unknown>''), pid]) (\<lambda>u.
       print_each con ps))))"

text \<open>The ping loop prints one line for each host, in the order of the dictionary.\<close>

fun print_hosts :: "console \<Rightarrow> (string \<times> pyval) list \<Rightarrow> py_exn + unit" where
  "print_hosts con [] = Inr ()"
| "print_hosts con (hr # hrs) =
     bind_e (py_print con False [PStr (fst hr)]) (\<lambda>u. print_hosts con hrs)"

definition pretty_print_summary :: "console \<Rightarrow> pyval \<Rightarrow> py_exn + unit" where
  "pretty_print_summary con report =
     bind_e (py_get report ''system'' (PDict [])) (\<lambda>sys_info.
     bind_e (py_get sys_info ''hostname'' PNone) (\<lambda>hostname.
     bind_e (py_get sys_info ''platform'' PNone) (\<lambda>platform.
     bind_e (py_get sys_info ''platform_release'' PNone) (\<lambda>release.
     bind_e (py_print con False [hostname, platform, release]) (\<lambda>u1.
     bind_e (py_get sys_info ''python_version'' PNone) (\<lambda>version.
     bind_e (py_print con False [version]) (\<lambda>u2.
     bind_e (py_get report ''cpu'' (PDict [])) (\<lambda>cpu.
     bind_e (py_get cpu ''logical_processors'' PNone) (\<lambda>logical.
     bind_e (py_print con False [logical]) (\<lambda>u3.
     bind_e (py_get report ''cpu'' (PDict [])) (\<lambda>cpu'.
     bind_e (py_get cpu' ''cpu_percent_overall'' PNone) (\<lambda>overall.
     bind_e (py_print con False [overall]) (\<lambda>u4.
     bind_e (py_get report ''memory'' (PDict [])) (\<lambda>mem.
     bind_e (py_get mem ''percent'' PNone) (\<lambda>mem_pct.
     bind_e (py_print con False [mem_pct]) (\<lambda>u5.
     bind_e (py_get report ''top_processes'' (PList [])) (\<lambda>tp.
     bind_e (py_slice_to tp 5) (\<lambda>top.
     bind_e (py_iter top) (\<lambda>ps.
     bind_e (print_each con ps) (\<lambda>u6.
     bind_e (py_get report ''pings'' PNone) (\<lambda>pings.
       if truthy pings
       then (case pings of PDict kvs \<Rightarrow> print_hosts con kvs | _ \<Rightarrow> Inl AttributeError)
       else Inr ())))))))))))))))))))))"

text \<open>
  \<^verbatim>\<open>save_report\<close> raises \<^verbatim>\<open>OSError\<close> when the report file cannot be written; the
  file is written as UTF-8 with JSON escapes, then the path is printed.
\<close>

definition save_report :: "console \<Rightarrow> env \<Rightarrow> string \<Rightarrow> py_exn + unit" where
  "save_report con e path =
     (if \<not> report_writable e then Inl OSError else py_print con False [PStr path])"

text \<open>
  \<^verbatim>\<open>main\<close> after argument parsing. The result is the exception that escapes, if any,
  and the world reached.
\<close>

definition main :: "args \<Rightarrow> env \<Rightarrow> world \<Rightarrow> py_exn option \<times> world" where
  "main a e w =
     (let report = run_checks a e; con = console w in
      case pretty_print_summary con report of
        Inl x \<Rightarrow> (Some x, w)
      | Inr u \<Rightarrow>
          (case suggest_actions con report of
             Inl x \<Rightarrow> (Some x, w)
           | Inr adv \<Rightarrow>
               (case save_report con e (report_path a) of
                  Inl x \<Rightarrow> (Some x, w)
                | Inr u' \<Rightarrow>
                    if fix_mode a then interactive_fix (snd adv) w
                    else (None, w))))"

text \<open>The exit status of the interpreter: 0 when \<^verbatim>\<open>main\<close> returns, 1 when an exception
  escapes it.\<close>

definition exit_status :: "py_exn option \<times> world \<Rightarrow> nat" where
  "exit_status r = (case fst r of None \<Rightarrow> 0 | Some x \<Rightarrow> 1)"

section \<open>Notions the properties are stated with\<close>

text \<open>A console that encodes every character, as one with UTF-8 does.\<close>

definition accepts_all :: "console \<Rightarrow> bool" where
  "accepts_all con = (encodes_bullet con \<and> (\<forall>c. encodes con c))"


text \<open>A file whose modification time can be read and lies strictly before the cutoff.\<close>

definition eligible :: "real \<Rightarrow> tfile \<Rightarrow> bool" where
  "eligible cutoff f = (case f_stat f of None \<Rightarrow> False | Some (mtime, sz) \<Rightarrow> mtime < cutoff)"

definition file_size :: "tfile \<Rightarrow> nat" where
  "file_size f = (case f_stat f of None \<Rightarrow> 0 | Some (mtime, sz) \<Rightarrow> sz)"


text \<open>The memory a process is sorted by: 0 when it could not be read.\<close>

definition mem_of :: "proc_info \<Rightarrow> nat" where
  "mem_of p = (case pi_memory_info p of None \<Rightarrow> 0 | Some r \<Rightarrow> r)"

text \<open>A process entry that is a dictionary whose name is absent, \<open>None\<close> or a string.\<close>

definition name_ok :: "pyval \<Rightarrow> bool" where
  "name_ok x = (\<exists>kvs. x = PDict kvs \<and>
     (map_of kvs ''name'' = None \<or> map_of kvs ''name'' = Some PNone \<or>
      (\<exists>s. map_of kvs ''name'' = Some (PStr s))))"

fun is_dict :: "pyval \<Rightarrow> bool" where
  "is_dict (PDict kvs) = True"
| "is_dict PNone = False"
| "is_dict (PBool b) = False"
| "is_dict (PInt i) = False"
| "is_dict (PFloat x) = False"
| "is_dict (PStr s) = False"
| "is_dict (PList xs) = False"

text \<open>A process entry: a dictionary whose name, when present, is \<open>None\<close> or a string.\<close>

definition entry_ok :: "pyval \<Rightarrow> bool" where
  "entry_ok p =
     (case p of
        PDict kvs \<Rightarrow>
          (case map_of kvs ''name'' of
             None \<Rightarrow> True
           | Some v \<Rightarrow> (case v of PNone \<Rightarrow> True | PStr s \<Rightarrow> True | _ \<Rightarrow> False))
      | _ \<Rightarrow> False)"

text \<open>A disk entry: a dictionary whose percentage, when present, is \<open>None\<close> or a number.\<close>

definition disk_ok :: "pyval \<Rightarrow> bool" where
  "disk_ok d =
     (case d of
        PDict kvs \<Rightarrow>
          (case map_of kvs ''percent'' of
             None \<Rightarrow> True
           | Some v \<Rightarrow> (case v of PNone \<Rightarrow> True | PInt i \<Rightarrow> True | PFloat x \<Rightarrow> True | _ \<Rightarrow> False))
      | _ \<Rightarrow> False)"

definition list_of :: "(pyval \<Rightarrow> bool) \<Rightarrow> pyval \<Rightarrow> bool" where
  "list_of P v = (case v of PList xs \<Rightarrow> list_all P xs | _ \<Rightarrow> False)"

definition section_ok :: "(pyval \<Rightarrow> bool) \<Rightarrow> (string \<times> pyval) list \<Rightarrow> string \<Rightarrow> bool" where
  "section_ok P kvs k = (case map_of kvs k of None \<Rightarrow> True | Some v \<Rightarrow> P v)"

text \<open>
  The shape of a snapshot: a dictionary in which each of the sections the rule engine
  reads is either missing or of the kind the provider builds (the memory, CPU and ping
  sections dictionaries, the disk and process sections lists of entries). An error
  marker is a dictionary without the data keys, so it has this shape.
\<close>

definition snapshot_shaped :: "pyval \<Rightarrow> bool" where
  "snapshot_shaped report =
     (case report of
        PDict kvs \<Rightarrow>
          section_ok is_dict kvs ''memory'' \<and> section_ok is_dict kvs ''cpu'' \<and>
          section_ok (list_of disk_ok) kvs ''disks'' \<and>
          section_ok (list_of entry_ok) kvs ''top_processes'' \<and>
          section_ok is_dict kvs ''pings''
      | _ \<Rightarrow> False)"

section \<open>Example inputs\<close>

definition ex_utf8_console :: console where
  "ex_utf8_console = \<lparr>encodes = (\<lambda>c. True), encodes_bullet = True\<rparr>"

definition ex_latin1_console :: console where
  "ex_latin1_console = \<lparr>encodes = (\<lambda>c. True), encodes_bullet = False\<rparr>"

definition ex_ascii_console :: console where
  "ex_ascii_console = \<lparr>encodes = (\<lambda>c. False), encodes_bullet = False\<rparr>"

definition ex_graceful :: proc where
  "ex_graceful = \<lparr>p_name = Inr ''chrome'', p_terminate = None, p_wait_terminated = None,
     p_kill = None, p_wait_killed = None\<rparr>"

definition ex_stubborn :: proc where
  "ex_stubborn = \<lparr>p_name = Inr ''OneDrive.exe'', p_terminate = None,
     p_wait_terminated = Some TimeoutExpired, p_kill = None, p_wait_killed = None\<rparr>"

definition ex_denied :: proc where
  "ex_denied = \<lparr>p_name = Inr ''System'', p_terminate = Some AccessDenied,
     p_wait_terminated = None, p_kill = Some AccessDenied, p_wait_killed = None\<rparr>"

definition ex_cafe :: proc where
  "ex_cafe = \<lparr>p_name = Inr (''caf'' @ [char_of (233 :: nat)]), p_terminate = None,
     p_wait_terminated = None, p_kill = None, p_wait_killed = None\<rparr>"

definition ex_world :: world where
  "ex_world = \<lparr>stdin = [], procs = [(10, ex_graceful), (11, ex_stubborn), (12, ex_denied)],
     files = [\<lparr>f_path = ''/tmp/a.log'', f_stat = Some (10, 100), f_removable = True\<rparr>,
              \<lparr>f_path = ''/tmp/sub/b.tmp'', f_stat = Some (20, 50), f_removable = True\<rparr>],
     clock = 100, temp_dir = ''/tmp'', calls = [], signals = [], removals = [],
     console = ex_utf8_console, float_sub = (\<lambda>x n. x - real_of_int n)\<rparr>"

definition ex_ascii_world :: world where
  "ex_ascii_world = ex_world\<lparr>procs := [(13, ex_cafe)], console := ex_ascii_console\<rparr>"

definition ex_locked_world :: world where
  "ex_locked_world = \<lparr>stdin = [], procs = [],
     files = [\<lparr>f_path = ''/tmp/busy.lock'', f_stat = Some (10, 100), f_removable = False\<rparr>],
     clock = 100, temp_dir = ''/tmp'', calls = [], signals = [], removals = [],
     console = ex_utf8_console, float_sub = (\<lambda>x n. x - real_of_int n)\<rparr>"

definition ex_suggestions :: "suggestion list" where
  "ex_suggestions =
     [(''kill_process'', Terminate_text (PStr ''chrome'') (PInt 10), PInt 10),
      (''clean_temp'', Literal_text ''Clean user temporary files older than X days'', PNone),
      (''stop_onedrive'', Literal_text ''Stop OneDrive process (pause syncing)'', PNone)]"

definition ex_procs :: "proc_info list" where
  "ex_procs =
     [\<lparr>pi_pid = 1, pi_name = Some ''explorer'', pi_username = Some ''andre'',
        pi_memory_info = Some 0, pi_cpu_percent = Some 1\<rparr>,
      \<lparr>pi_pid = 2, pi_name = None, pi_username = None,
        pi_memory_info = None, pi_cpu_percent = None\<rparr>,
      \<lparr>pi_pid = 3, pi_name = Some ''OneDrive.exe'', pi_username = Some ''andre'',
        pi_memory_info = Some 300, pi_cpu_percent = Some 3\<rparr>,
      \<lparr>pi_pid = 4, pi_name = Some ''chrome'', pi_username = Some ''andre'',
        pi_memory_info = Some 500, pi_cpu_percent = Some 12\<rparr>,
      \<lparr>pi_pid = 5, pi_name = Some ''teams'', pi_username = Some ''andre'',
        pi_memory_info = Some 400, pi_cpu_percent = Some 2\<rparr>]"

definition ex_vm :: vm where
  "ex_vm = \<lparr>vm_total = 16000000000, vm_available = 800000000, vm_used = 15200000000,
     vm_percent = 95\<rparr>"

definition ex_provider :: provider where
  "ex_provider =
     \<lparr>virtual_memory = Inr ex_vm,
      cpu_stats = Inl ''cpu counters unavailable'',
      disk_partitions = Inr [\<lparr>device = ''C:'', mountpoint = ''C:/'', fstype = ''NTFS'',
                               disk_usage = Inl ''device not ready''\<rparr>],
      process_iter = Inr ex_procs\<rparr>"

definition ex_env :: env where
  "ex_env = \<lparr>psutil = Some ex_provider, system_info = [(''hostname'', PStr ''testhost'')],
     network_info = [], subprocess_ping = (\<lambda>h. Inl ''timed out''), report_writable = True\<rparr>"

definition ex_env_no_psutil :: env where
  "ex_env_no_psutil = \<lparr>psutil = None, system_info = [(''hostname'', PStr ''testhost'')],
     network_info = [], subprocess_ping = (\<lambda>h. Inl ''timed out''), report_writable = True\<rparr>"

definition ex_args :: args where
  "ex_args = \<lparr>report_path = ''report.json'', ping = [''8.8.8.8''], top_processes_n = 5,
     fix_mode = False\<rparr>"

definition ex_fix_args :: args where
  "ex_fix_args = \<lparr>report_path = ''report.json'', ping = [''8.8.8.8''], top_processes_n = 5,
     fix_mode = True\<rparr>"

definition ex_unknown_a :: proc_info where
  "ex_unknown_a = \<lparr>pi_pid = 1, pi_name = Some ''a'', pi_username = None,
     pi_memory_info = None, pi_cpu_percent = None\<rparr>"

definition ex_zero_b :: proc_info where
  "ex_zero_b = \<lparr>pi_pid = 2, pi_name = Some ''b'', pi_username = None,
     pi_memory_info = Some 0, pi_cpu_percent = None\<rparr>"

definition ex_tie_provider :: provider where
  "ex_tie_provider =
     \<lparr>virtual_memory = Inl ''unavailable'', cpu_stats = Inl ''unavailable'',
      disk_partitions = Inl ''unavailable'', process_iter = Inr [ex_unknown_a, ex_zero_b]\<rparr>"

definition ex_partial_report :: pyval where
  "ex_partial_report =
     PDict [(''memory'', PDict [(''percent'', PStr ''n/a'')]),
            (''cpu'', PDict [(''error'', PStr ''cpu counters unavailable'')]),
            (''disks'', PList [PDict [(''device'', PStr ''C:''), (''error'', PStr ''device not ready'')]])]"

definition ex_disk_report :: pyval where
  "ex_disk_report =
     PDict [(''disks'', PList [PDict [(''mountpoint'', PStr ''C:/''), (''percent'', PStr ''n/a'')]])]"

section \<open>Properties of the executors\<close>

lemma kill_process_calls:
  "calls (snd (kill_process pid w)) = calls w @ [Call_kill_process pid]"
  by (simp add: kill_process_def Let_def signal_def reap_def
      split: sum.splits option.splits)

lemma py_print_ok:
  "list_all (str_ok con) vs \<Longrightarrow> py_print con False vs = Inr ()"
  by (simp add: py_print_def)

lemma map_of_reaped: "map_of (filter (\<lambda>kp. fst kp \<noteq> n) xs) n = None"
  by (induction xs) auto

lemma kill_process_trace:
  assumes "py_int_of pid = Inr n" and "psutil_Process (procs w) n = Inr p"
  shows "\<exists>tr. signals (snd (kill_process pid w)) = signals w @ tr \<and>
          (tr = [] \<or> tr = [(n, Terminate)] \<or> tr = [(n, Terminate), (n, Wait 5)] \<or>
           tr = [(n, Terminate), (n, Wait 5), (n, Kill)] \<or>
           tr = [(n, Terminate), (n, Wait 5), (n, Kill), (n, Wait 3)]) \<and>
          ((n, Kill) \<in> set tr \<longrightarrow>
             p_terminate p = None \<and> p_wait_terminated p = Some TimeoutExpired)"
  using assms
  by (auto simp add: kill_process_def Let_def signal_def reap_def
      split: sum.splits option.splits)

lemma kill_process_outcome:
  assumes "py_int_of pid = Inr n" and "psutil_Process (procs w) n = Inr p" and "p_name p = Inr name"
    and "text_ok (console w) name" and "str_ok (console w) pid"
  shows "fst (kill_process pid w) =
           (case p_terminate p of
              Some e \<Rightarrow> handle_kill_exn pid e
            | None \<Rightarrow>
                (case p_wait_terminated p of
                   None \<Rightarrow> (True, Terminated_msg name pid)
                 | Some e \<Rightarrow>
                     if e = TimeoutExpired then
                       (case p_kill p of
                          Some e' \<Rightarrow> handle_kill_exn pid e'
                        | None \<Rightarrow>
                            (case p_wait_killed p of
                               None \<Rightarrow> (True, Killed_msg name pid)
                             | Some e' \<Rightarrow> handle_kill_exn pid e'))
                     else handle_kill_exn pid e))"
  using assms
  by (simp add: kill_process_def Let_def py_print_def str_ok_def
      split: sum.splits option.splits)

lemma kill_process_signals:
  assumes "py_int_of pid = Inr n" and "psutil_Process (procs w) n = Inr p" and "p_name p = Inr name"
    and "text_ok (console w) name" and "str_ok (console w) pid"
  shows "signals (snd (kill_process pid w)) = signals w @
           (if p_terminate p \<noteq> None then [(n, Terminate)]
            else if p_wait_terminated p \<noteq> Some TimeoutExpired then [(n, Terminate), (n, Wait 5)]
            else if p_kill p \<noteq> None then [(n, Terminate), (n, Wait 5), (n, Kill)]
            else [(n, Terminate), (n, Wait 5), (n, Kill), (n, Wait 3)])"
  using assms
  by (auto simp add: kill_process_def Let_def py_print_def str_ok_def signal_def reap_def
      split: sum.splits option.splits)

lemma handle_kill_exn_fails: "fst (handle_kill_exn pid e) = False"
  by (simp add: handle_kill_exn_def)

lemma handle_kill_exn_denied:
  "handle_kill_exn pid e = (False, Access_denied_msg) \<longleftrightarrow> e = AccessDenied"
  by (simp add: handle_kill_exn_def)

lemma handle_kill_exn_not_success [simp]: "handle_kill_exn pid e \<noteq> (True, m)"
  by (simp add: handle_kill_exn_def)

text \<open>
  C4, as amended. For a pid whose process exists (the constructor finds it and its name
  can be read) and whose announcement line, which names the process and the pid, can be
  encoded by standard output, \<^verbatim>\<open>kill_process\<close> first calls \<^verbatim>\<open>terminate()\<close> and then
  \<^verbatim>\<open>wait(timeout=5)\<close>. The outcome is the success message \<^verbatim>\<open>Terminated ...\<close> exactly
  when both return; it is the success message \<^verbatim>\<open>Killed ...\<close> exactly when the first
  wait times out and the \<^verbatim>\<open>kill()\<close> and \<^verbatim>\<open>wait(timeout=3)\<close> that follow both return;
  there is no other success outcome. The outcome is the access-denied failure, whose
  text tells to run as Administrator, exactly when the first call that raises raises
  \<^verbatim>\<open>AccessDenied\<close>. The calls made on the process are: terminate alone when it raises;
  terminate and wait 5 when the wait returns or raises anything but a timeout; these and
  kill when kill raises; these and wait 3 otherwise. So a call that raises is the last
  one made, and \<^verbatim>\<open>kill()\<close> is called only after the first wait timed out.
\<close>

theorem kill_process_tiers:
  assumes "py_int_of pid = Inr n" and "psutil_Process (procs w) n = Inr p" and "p_name p = Inr name"
    and "text_ok (console w) name" and "str_ok (console w) pid"
  shows "(fst (kill_process pid w) = (True, Terminated_msg name pid) \<longleftrightarrow>
            p_terminate p = None \<and> p_wait_terminated p = None)
       \<and> (fst (kill_process pid w) = (True, Killed_msg name pid) \<longleftrightarrow>
            p_terminate p = None \<and> p_wait_terminated p = Some TimeoutExpired \<and>
            p_kill p = None \<and> p_wait_killed p = None)
       \<and> (\<forall>m. fst (kill_process pid w) = (True, m) \<longrightarrow>
            m = Terminated_msg name pid \<or> m = Killed_msg name pid)
       \<and> (fst (kill_process pid w) = (False, Access_denied_msg) \<longleftrightarrow>
            p_terminate p = Some AccessDenied \<or>
            (p_terminate p = None \<and>
              (p_wait_terminated p = Some AccessDenied \<or>
               (p_wait_terminated p = Some TimeoutExpired \<and>
                 (p_kill p = Some AccessDenied \<or>
                  (p_kill p = None \<and> p_wait_killed p = Some AccessDenied))))))
       \<and> message_head Access_denied_msg =
            ''Access denied. Try running PowerShell as Administrator.''
       \<and> signals (snd (kill_process pid w)) = signals w @
           (if p_terminate p \<noteq> None then [(n, Terminate)]
            else if p_wait_terminated p \<noteq> Some TimeoutExpired then [(n, Terminate), (n, Wait 5)]
            else if p_kill p \<noteq> None then [(n, Terminate), (n, Wait 5), (n, Kill)]
            else [(n, Terminate), (n, Wait 5), (n, Kill), (n, Wait 3)])"
proof -
  note out = kill_process_outcome [OF assms]
  have a: "fst (kill_process pid w) = (True, Terminated_msg name pid) \<longleftrightarrow>
            p_terminate p = None \<and> p_wait_terminated p = None"
    unfolding out by (simp split: option.splits)
  have b: "fst (kill_process pid w) = (True, Killed_msg name pid) \<longleftrightarrow>
            p_terminate p = None \<and> p_wait_terminated p = Some TimeoutExpired \<and>
            p_kill p = None \<and> p_wait_killed p = None"
    unfolding out by (auto split: option.splits)
  have c: "\<forall>m. fst (kill_process pid w) = (True, m) \<longrightarrow>
            m = Terminated_msg name pid \<or> m = Killed_msg name pid"
    unfolding out by (auto split: option.splits if_splits)
  have d: "fst (kill_process pid w) = (False, Access_denied_msg) \<longleftrightarrow>
            p_terminate p = Some AccessDenied \<or>
            (p_terminate p = None \<and>
              (p_wait_terminated p = Some AccessDenied \<or>
               (p_wait_terminated p = Some TimeoutExpired \<and>
                 (p_kill p = Some AccessDenied \<or>
                  (p_kill p = None \<and> p_wait_killed p = Some AccessDenied)))))"
    unfolding out by (auto simp add: handle_kill_exn_denied split: option.splits if_splits)
  have e: "message_head Access_denied_msg =
            ''Access denied. Try running PowerShell as Administrator.''"
    by simp
  from a b c d e kill_process_signals [OF assms] show ?thesis by blast
qed

theorem kill_process_tiers_witness:
  "fst (kill_process (PInt 10) ex_world) = (True, Terminated_msg ''chrome'' (PInt 10))
   \<and> signals (snd (kill_process (PInt 10) ex_world)) = [(10, Terminate), (10, Wait 5)]
   \<and> fst (kill_process (PInt 11) ex_world) = (True, Killed_msg ''OneDrive.exe'' (PInt 11))
   \<and> signals (snd (kill_process (PInt 11) ex_world)) =
       [(11, Terminate), (11, Wait 5), (11, Kill), (11, Wait 3)]
   \<and> fst (kill_process (PInt 12) ex_world) = (False, Access_denied_msg)
   \<and> signals (snd (kill_process (PInt 12) ex_world)) = [(12, Terminate)]"
proof -
  have sig: "signals ex_world = []" by (simp add: ex_world_def)
  have con: "console ex_world = ex_utf8_console" by (simp add: ex_world_def)
  have g: "psutil_Process (procs ex_world) 10 = Inr ex_graceful"
    by (simp add: psutil_Process_def ex_world_def)
  have s: "psutil_Process (procs ex_world) 11 = Inr ex_stubborn"
    by (simp add: psutil_Process_def ex_world_def)
  have d: "psutil_Process (procs ex_world) 12 = Inr ex_denied"
    by (simp add: psutil_Process_def ex_world_def)
  have gn: "p_name ex_graceful = Inr ''chrome''" by (simp add: ex_graceful_def)
  have sn: "p_name ex_stubborn = Inr ''OneDrive.exe''" by (simp add: ex_stubborn_def)
  have dn: "p_name ex_denied = Inr ''System''" by (simp add: ex_denied_def)
  have tx: "text_ok (console ex_world) s" for s
    by (simp add: con text_ok_def can_encode_def ex_utf8_console_def list_all_iff)
  have px: "str_ok (console ex_world) (PInt i)" for i
    by (simp add: str_ok_def)
  have gb: "p_terminate ex_graceful = None \<and> p_wait_terminated ex_graceful = None"
    by (simp add: ex_graceful_def)
  have sb: "p_terminate ex_stubborn = None \<and> p_wait_terminated ex_stubborn = Some TimeoutExpired \<and>
            p_kill ex_stubborn = None \<and> p_wait_killed ex_stubborn = None"
    by (simp add: ex_stubborn_def)
  have db: "p_terminate ex_denied = Some AccessDenied" by (simp add: ex_denied_def)
  note kg = kill_process_tiers [of "PInt 10" 10 ex_world ex_graceful "''chrome''", OF _ g gn tx px]
  note ks = kill_process_tiers [of "PInt 11" 11 ex_world ex_stubborn "''OneDrive.exe''", OF _ s sn tx px]
  note kd = kill_process_tiers [of "PInt 12" 12 ex_world ex_denied "''System''", OF _ d dn tx px]
  have a1: "fst (kill_process (PInt 10) ex_world) = (True, Terminated_msg ''chrome'' (PInt 10))"
    using kg [THEN conjunct1] gb by simp
  have a2: "signals (snd (kill_process (PInt 10) ex_world)) = [(10, Terminate), (10, Wait 5)]"
    using kg [THEN conjunct2, THEN conjunct2, THEN conjunct2, THEN conjunct2, THEN conjunct2] gb sig
    by simp
  have b1: "fst (kill_process (PInt 11) ex_world) = (True, Killed_msg ''OneDrive.exe'' (PInt 11))"
    using ks [THEN conjunct2, THEN conjunct1] sb by simp
  have b2: "signals (snd (kill_process (PInt 11) ex_world)) =
       [(11, Terminate), (11, Wait 5), (11, Kill), (11, Wait 3)]"
    using ks [THEN conjunct2, THEN conjunct2, THEN conjunct2, THEN conjunct2, THEN conjunct2] sb sig
    by simp
  have c1: "fst (kill_process (PInt 12) ex_world) = (False, Access_denied_msg)"
    using kd [THEN conjunct2, THEN conjunct2, THEN conjunct2, THEN conjunct1] db by simp
  have c2: "signals (snd (kill_process (PInt 12) ex_world)) = [(12, Terminate)]"
    using kd [THEN conjunct2, THEN conjunct2, THEN conjunct2, THEN conjunct2, THEN conjunct2] db sig
    by simp
  from a1 a2 b1 b2 c1 c2 show ?thesis by simp
qed

text \<open>
  C4 as stated fails: a process that exists and would end at the first request, but
  whose name has a character standard output cannot encode, is reported as not found,
  and no termination request is sent.
\<close>

theorem kill_process_tiers_counterexample:
  "psutil_Process (procs ex_ascii_world) 13 = Inr ex_cafe
   \<and> p_terminate ex_cafe = None \<and> p_wait_terminated ex_cafe = None
   \<and> fst (kill_process (PInt 13) ex_ascii_world) =
       (False, Not_found_msg (PInt 13) UnicodeEncodeError)
   \<and> signals (snd (kill_process (PInt 13) ex_ascii_world)) = []"
  by (simp add: kill_process_def Let_def psutil_Process_def handle_kill_exn_def py_print_def
      str_ok_def text_ok_def can_encode_def ex_ascii_world_def ex_world_def ex_cafe_def
      ex_ascii_console_def)

lemma kill_process_success_reaps:
  assumes "fst (kill_process pid w) = (True, m)"
  shows "\<exists>n. py_int_of pid = Inr n \<and> map_of (procs (snd (kill_process pid w))) n = None \<and> 0 \<le> n"
  using assms
  by (auto simp add: kill_process_def Let_def signal_def reap_def handle_kill_exn_def map_of_reaped
      psutil_Process_def
      split: sum.splits option.splits if_splits)

lemma kill_process_absent:
  assumes "py_int_of pid = Inr n" and "map_of (procs w) n = None" and "0 \<le> n"
  shows "kill_process pid w = ((False, Not_found_msg pid NoSuchProcess), w\<lparr>calls := calls w @ [Call_kill_process pid]\<rparr>)"
  using assms
  by (simp add: kill_process_def Let_def psutil_Process_def handle_kill_exn_def)

lemma kill_process_unknown:
  assumes "\<forall>n. py_int_of pid = Inr n \<longrightarrow> map_of (procs w) n = None"
    and "pid = PInt i \<or> pid = PStr s"
  shows "\<exists>e. kill_process pid w = ((False, Not_found_msg pid e), w\<lparr>calls := calls w @ [Call_kill_process pid]\<rparr>)"
  using assms
  by (auto simp add: kill_process_def Let_def psutil_Process_def handle_kill_exn_def
      split: sum.splits option.splits)

lemma kill_process_again:
  assumes "fst (kill_process pid w) = (True, m)"
  shows "fst (kill_process pid (snd (kill_process pid w))) = (False, Not_found_msg pid NoSuchProcess)"
proof -
  from kill_process_success_reaps [OF assms] obtain n where
    n: "py_int_of pid = Inr n" "map_of (procs (snd (kill_process pid w))) n = None" "0 \<le> n"
    by blast
  show ?thesis by (simp add: kill_process_absent [OF n])
qed

lemma kill_process_unknown_again:
  assumes "\<forall>n. py_int_of pid = Inr n \<longrightarrow> map_of (procs w) n = None"
    and "pid = PInt i \<or> pid = PStr s"
  shows "fst (kill_process pid (snd (kill_process pid w))) = fst (kill_process pid w)"
proof -
  from kill_process_unknown [OF assms] obtain e where
    e: "kill_process pid w = ((False, Not_found_msg pid e), w\<lparr>calls := calls w @ [Call_kill_process pid]\<rparr>)"
    by blast
  have "\<forall>n. py_int_of pid = Inr n \<longrightarrow> map_of (procs (w\<lparr>calls := calls w @ [Call_kill_process pid]\<rparr>)) n = None"
    using assms(1) by simp
  from kill_process_unknown [OF this assms(2)] obtain e' where
    e': "kill_process pid (w\<lparr>calls := calls w @ [Call_kill_process pid]\<rparr>) =
        ((False, Not_found_msg pid e'), w\<lparr>calls := calls w @ [Call_kill_process pid]\<rparr>\<lparr>calls := calls (w\<lparr>calls := calls w @ [Call_kill_process pid]\<rparr>) @ [Call_kill_process pid]\<rparr>)"
    by blast
  have "fst (kill_process pid (w\<lparr>calls := calls w @ [Call_kill_process pid]\<rparr>)) = fst (kill_process pid w)"
    by (simp add: kill_process_def Let_def signal_def reap_def split: sum.splits option.splits)
  then show ?thesis using e by simp
qed

text \<open>
  C5. For a pid given as an integer or as a string, when no integer it denotes is in the
  process table (which holds in particular for a string that is not an integer),
  \<^verbatim>\<open>kill_process\<close> returns the failure outcome \<^verbatim>\<open>Process ... not found\<close> and changes
  nothing but the log of executor calls; calling it again gives the same outcome. After a
  call that succeeded, the next call on the same pid returns the not-found outcome. The
  function returns an outcome in every case: it has no exceptional result.
\<close>

theorem kill_process_not_found:
  assumes "pid = PInt i \<or> pid = PStr s"
  shows "((\<forall>n. py_int_of pid = Inr n \<longrightarrow> map_of (procs w) n = None) \<longrightarrow>
            (\<exists>e. kill_process pid w =
                   ((False, Not_found_msg pid e), w\<lparr>calls := calls w @ [Call_kill_process pid]\<rparr>)) \<and>
            fst (kill_process pid (snd (kill_process pid w))) = fst (kill_process pid w))
       \<and> (\<forall>m. fst (kill_process pid w) = (True, m) \<longrightarrow>
            fst (kill_process pid (snd (kill_process pid w))) =
              (False, Not_found_msg pid NoSuchProcess))"
  using assms kill_process_unknown [of pid w i s] kill_process_unknown_again [of pid w i s] kill_process_again [of pid w]
  by blast

theorem kill_process_not_found_witness:
  "kill_process (PStr ''abc'') ex_world =
     ((False, Not_found_msg (PStr ''abc'') ValueError),
      ex_world\<lparr>calls := [Call_kill_process (PStr ''abc'')]\<rparr>)
   \<and> fst (kill_process (PInt 99) ex_world) = (False, Not_found_msg (PInt 99) NoSuchProcess)
   \<and> fst (kill_process (PInt 10) ex_world) = (True, Terminated_msg ''chrome'' (PInt 10))
   \<and> fst (kill_process (PInt 10) (snd (kill_process (PInt 10) ex_world))) =
       (False, Not_found_msg (PInt 10) NoSuchProcess)"
  using kill_process_not_found [of "PStr ''abc''" 0 "''abc''" ex_world]
    kill_process_not_found [of "PInt 99" 99 "[]" ex_world]
    kill_process_not_found [of "PInt 10" 10 "[]" ex_world]
  by (simp add: kill_process_def Let_def psutil_Process_def handle_kill_exn_def signal_def
      reap_def py_int_def max_str_digits_def strip_def is_space_def is_digit_def
      py_print_def str_ok_def text_ok_def can_encode_def ex_utf8_console_def
      ex_world_def ex_graceful_def ex_stubborn_def ex_denied_def)

lemma clean_step_fields:
  "deleted_files (clean_step c st f) =
     deleted_files st + (if eligible c f \<and> f_removable f then 1 else 0)"
  "deleted_bytes (clean_step c st f) =
     deleted_bytes st + (if eligible c f \<and> f_removable f then file_size f else 0)"
  "attempted (clean_step c st f) = attempted st @ (if eligible c f then [f_path f] else [])"
  "kept (clean_step c st f) = kept st @ (if eligible c f \<and> f_removable f then [] else [f])"
  by (simp_all add: clean_step_def eligible_def file_size_def split: option.splits)

lemma clean_fold_files:
  "deleted_files (foldl (clean_step c) st fs) =
     deleted_files st + length (filter (\<lambda>f. eligible c f \<and> f_removable f) fs)"
  by (induction fs arbitrary: st) (simp_all add: clean_step_fields)

lemma clean_fold_bytes:
  "deleted_bytes (foldl (clean_step c) st fs) =
     deleted_bytes st + sum_list (map file_size (filter (\<lambda>f. eligible c f \<and> f_removable f) fs))"
  by (induction fs arbitrary: st) (simp_all add: clean_step_fields)

lemma clean_fold_attempted:
  "attempted (foldl (clean_step c) st fs) = attempted st @ map f_path (filter (eligible c) fs)"
  by (induction fs arbitrary: st) (simp_all add: clean_step_fields)

lemma clean_fold_kept:
  "kept (foldl (clean_step c) st fs) =
     kept st @ filter (\<lambda>f. \<not> (eligible c f \<and> f_removable f)) fs"
  by (induction fs arbitrary: st) (simp_all add: clean_step_fields)

lemmas clean_fold = clean_fold_files clean_fold_bytes clean_fold_attempted clean_fold_kept

lemma cutoff_of_calls: "cutoff_of (w\<lparr>calls := cs\<rparr>) days = cutoff_of w days"
  by (simp add: cutoff_of_def py_float_sub_def)

lemma clean_user_temp_result:
  assumes "cutoff_of w days = Inr c"
  shows "fst (clean_user_temp days w) =
     Inr (length (filter (\<lambda>f. eligible c f \<and> f_removable f) (files w)),
          sum_list (map file_size (filter (\<lambda>f. eligible c f \<and> f_removable f) (files w))),
          temp_dir w)"
  using assms
  by (simp add: clean_user_temp_def Let_def cutoff_of_calls clean_fold clean_init_def)

lemma clean_user_temp_world:
  assumes "cutoff_of w days = Inr c"
  shows "snd (clean_user_temp days w) =
     w\<lparr>calls := calls w @ [Call_clean_user_temp days],
       files := filter (\<lambda>f. \<not> (eligible c f \<and> f_removable f)) (files w),
       removals := removals w @ map f_path (filter (eligible c) (files w))\<rparr>"
  using assms
  by (simp add: clean_user_temp_def Let_def cutoff_of_calls clean_fold clean_init_def)


lemma cutoff_of_zero: "cutoff_of w 0 = Inr (clock w)"
  by (simp add: cutoff_of_def py_float_sub_def double_overflow_def)


text \<open>
  C9, as amended. When every file below the temp directory has a modification time
  strictly before the current time and can be removed, \<^verbatim>\<open>clean_user_temp(0)\<close> returns,
  deletes all of them and reports their number; a second call, at whatever later time,
  returns, deletes nothing and reports zero.
\<close>

theorem clean_user_temp_round_trip:
  assumes old: "\<forall>f\<in>set (files w). \<exists>t sz. f_stat f = Some (t, sz) \<and> t < clock w"
    and rem: "\<forall>f\<in>set (files w). f_removable f"
  shows "(\<exists>r. fst (clean_user_temp 0 w) = Inr r \<and> fst r = length (files w)) \<and>
         files (snd (clean_user_temp 0 w)) = [] \<and>
         (\<forall>now'. \<exists>r. fst (clean_user_temp 0 (snd (clean_user_temp 0 w)\<lparr>clock := now'\<rparr>)) = Inr r \<and>
                     fst r = 0)"
proof -
  have el: "\<forall>f\<in>set (files w). eligible (clock w) f \<and> f_removable f"
    using old rem by (fastforce simp add: eligible_def)
  then have all: "filter (\<lambda>f. eligible (clock w) f \<and> f_removable f) (files w) = files w"
    by (simp add: filter_id_conv)
  have first: "\<exists>r. fst (clean_user_temp 0 w) = Inr r \<and> fst r = length (files w)"
    by (simp add: clean_user_temp_result [OF cutoff_of_zero] all)
  have none: "files (snd (clean_user_temp 0 w)) = []"
    using el by (simp add: clean_user_temp_world [OF cutoff_of_zero] filter_empty_conv)
  have second: "\<exists>r. fst (clean_user_temp 0 (snd (clean_user_temp 0 w)\<lparr>clock := now'\<rparr>)) = Inr r \<and>
                     fst r = 0"
    for now'
    by (simp add: clean_user_temp_result [OF cutoff_of_zero] none)
  show ?thesis using first none second by blast
qed

theorem clean_user_temp_round_trip_witness:
  "(\<exists>r. fst (clean_user_temp 0 ex_world) = Inr r \<and> fst r = 2)
   \<and> files (snd (clean_user_temp 0 ex_world)) = []
   \<and> (\<exists>r. fst (clean_user_temp 0 (snd (clean_user_temp 0 ex_world)\<lparr>clock := 101\<rparr>)) = Inr r \<and>
           fst r = 0)"
proof -
  have o: "\<forall>f\<in>set (files ex_world). \<exists>t sz. f_stat f = Some (t, sz) \<and> t < clock ex_world"
    by (simp add: ex_world_def)
  have r: "\<forall>f\<in>set (files ex_world). f_removable f"
    by (simp add: ex_world_def)
  have l: "length (files ex_world) = 2" by (simp add: ex_world_def)
  from clean_user_temp_round_trip [OF o r] show ?thesis unfolding l by blast
qed

text \<open>
  C9 as stated fails: a file older than the current time that cannot be removed (in use,
  or no permission) is skipped and not counted.
\<close>

theorem clean_user_temp_round_trip_counterexample:
  "\<not> (\<forall>w. (\<forall>f\<in>set (files w). \<exists>t sz. f_stat f = Some (t, sz) \<and> t < clock w) \<longrightarrow>
          (\<exists>r. fst (clean_user_temp 0 w) = Inr r \<and> fst r = length (files w)))"
proof
  assume "\<forall>w. (\<forall>f\<in>set (files w). \<exists>t sz. f_stat f = Some (t, sz) \<and> t < clock w) \<longrightarrow>
          (\<exists>r. fst (clean_user_temp 0 w) = Inr r \<and> fst r = length (files w))"
  moreover have "\<forall>f\<in>set (files ex_locked_world).
      \<exists>t sz. f_stat f = Some (t, sz) \<and> t < clock ex_locked_world"
    by (simp add: ex_locked_world_def)
  ultimately obtain r where
    r: "fst (clean_user_temp 0 ex_locked_world) = Inr r" "fst r = length (files ex_locked_world)"
    by blast
  have "fst (clean_user_temp 0 ex_locked_world) = Inr (0, 0, ''/tmp'')"
    by (simp add: clean_user_temp_result [OF cutoff_of_zero] eligible_def ex_locked_world_def)
  with r show False by (simp add: ex_locked_world_def)
qed













section \<open>Properties of the confirmation gate\<close>

lemma kill_process_stdin: "stdin (snd (kill_process pid w)) = stdin w"
  by (simp add: kill_process_def Let_def signal_def reap_def split: sum.splits option.splits)

lemma clean_user_temp_stdin: "stdin (snd (clean_user_temp d w)) = stdin w"
  by (simp add: clean_user_temp_def Let_def split: sum.splits)

lemma clean_outcome_world:
  "snd (case clean_user_temp d w of (Inl e, w2) \<Rightarrow> (Some e, w2) | (Inr res, w2) \<Rightarrow> (None, w2)) =
     snd (clean_user_temp d w)"
  by (simp split: prod.splits sum.splits)

lemma stop_step_stdin: "stdin (snd (snd (stop_step st kp))) = stdin (snd (snd st))"
  by (cases st; cases kp)
     (simp add: stop_step_def Let_def signal_def reap_def split: option.splits)

lemma stop_fold_stdin: "stdin (snd (snd (foldl stop_step st kps))) = stdin (snd (snd st))"
  by (induction kps arbitrary: st) (simp_all add: stop_step_stdin)

lemma stop_onedrive_processes_stdin: "stdin (snd (stop_onedrive_processes w)) = stdin w"
proof -
  have "stdin (snd (snd (foldl stop_step ([], [], w\<lparr>calls := calls w @ [Call_stop_onedrive_processes]\<rparr>) (procs w)))) = stdin w"
    by (simp add: stop_fold_stdin)
  then show ?thesis
    by (auto simp add: stop_onedrive_processes_def Let_def split: prod.splits)
qed

lemma confirm_True:
  "confirm ls = (Inr True, rest) \<Longrightarrow>
   \<exists>pre l. ls = pre @ l # rest \<and> lower (strip l) = ''y'' \<and>
           (\<forall>x\<in>set pre. lower (strip x) \<noteq> ''y'' \<and> lower (strip x) \<noteq> ''n'' \<and> lower (strip x) \<noteq> [])"
proof (induction ls)
  case Nil
  then show ?case by simp
next
  case (Cons a ls)
  show ?case
  proof (cases "lower (strip a) = ''y''")
    case True
    with Cons.prems have "rest = ls" by (simp add: Let_def)
    with True have "a # ls = [] @ a # rest \<and> lower (strip a) = ''y''" by simp
    then show ?thesis by (metis empty_iff list.set(1))
  next
    case False
    show ?thesis
    proof (cases "lower (strip a) = ''n'' \<or> lower (strip a) = []")
      case True
      with False Cons.prems show ?thesis by (simp add: Let_def)
    next
      case no: False
      with False Cons.prems have "confirm ls = (Inr True, rest)" by (simp add: Let_def)
      from Cons.IH [OF this] obtain pre l where
        h: "ls = pre @ l # rest" "lower (strip l) = ''y''"
           "\<forall>x\<in>set pre. lower (strip x) \<noteq> ''y'' \<and> lower (strip x) \<noteq> ''n'' \<and> lower (strip x) \<noteq> []"
        by blast
      have "a # ls = (a # pre) @ l # rest" using h(1) by simp
      moreover have "\<forall>x\<in>set (a # pre). lower (strip x) \<noteq> ''y'' \<and> lower (strip x) \<noteq> ''n'' \<and> lower (strip x) \<noteq> []"
        using h(3) False no by simp
      ultimately show ?thesis using h(2) by blast
    qed
  qed
qed

lemma confirm_yes:
  "confirm ls = (Inr True, rest) \<Longrightarrow> \<exists>pre l. ls = pre @ l # rest \<and> lower (strip l) = ''y''"
  using confirm_True by blast

lemma push_line:
  "\<exists>pre l. ls = pre @ l # rest \<and> lower (strip l) = ''y'' \<Longrightarrow>
   \<exists>pre l. x # ls = pre @ l # rest \<and> lower (strip l) = ''y''"
  by (metis append_Cons)

lemma run_action_gated:
  assumes "calls (snd (run_action a w)) \<noteq> calls w"
  shows "\<exists>pre l. stdin w = pre @ l # stdin (snd (run_action a w)) \<and> lower (strip l) = ''y''"
proof -
  obtain code label data where a: "a = (code, label, data)" by (cases a) auto
  consider (kill_bound) "code = ''kill_process''" "data \<noteq> PNone"
    | (kill_ask) "code = ''kill_process''" "data = PNone"
    | (clean) "code = ''clean_temp''"
    | (stop) "code = ''stop_onedrive''"
    | (other) "code \<noteq> ''kill_process''" "code \<noteq> ''clean_temp''" "code \<noteq> ''stop_onedrive''"
    by blast
  then show ?thesis
  proof cases
    case kill_bound
    show ?thesis
    proof (cases "confirm (stdin w)")
      case (Pair r rest)
      show ?thesis
      proof (cases r)
        case (Inl e)
        with Pair kill_bound a assms show ?thesis by (simp add: run_action_def)
      next
        case (Inr ok)
        show ?thesis
        proof (cases ok)
          case True
          with Inr Pair have "confirm (stdin w) = (Inr True, rest)" by simp
          from confirm_yes [OF this] True Inr Pair kill_bound a show ?thesis
            by (simp add: run_action_def kill_process_stdin)
        next
          case False
          with Inr Pair kill_bound a assms show ?thesis by (simp add: run_action_def)
        qed
      qed
    qed
  next
    case kill_ask
    show ?thesis
    proof (cases "stdin w")
      case Nil
      with kill_ask a assms show ?thesis by (simp add: run_action_def py_input_def)
    next
      case (Cons x ls)
      show ?thesis
      proof (cases "confirm ls")
        case (Pair r rest)
        show ?thesis
        proof (cases r)
          case (Inl e)
          with Pair Cons kill_ask a assms show ?thesis by (simp add: run_action_def py_input_def)
        next
          case (Inr ok)
          show ?thesis
          proof (cases ok)
            case True
            with Inr Pair have "confirm ls = (Inr True, rest)" by simp
            from push_line [OF confirm_yes [OF this]] True Inr Pair Cons kill_ask a show ?thesis
              by (simp add: run_action_def py_input_def kill_process_stdin)
          next
            case False
            with Inr Pair Cons kill_ask a assms show ?thesis by (simp add: run_action_def py_input_def)
          qed
        qed
      qed
    qed
  next
    case clean
    show ?thesis
    proof (cases "stdin w")
      case Nil
      with clean a assms show ?thesis by (simp add: run_action_def py_input_def)
    next
      case (Cons x ls)
      show ?thesis
      proof (cases "confirm ls")
        case (Pair r rest)
        show ?thesis
        proof (cases r)
          case (Inl e)
          with Pair Cons clean a assms show ?thesis by (simp add: run_action_def py_input_def Let_def)
        next
          case (Inr ok)
          show ?thesis
          proof (cases ok)
            case True
            with Inr Pair have "confirm ls = (Inr True, rest)" by simp
            from push_line [OF confirm_yes [OF this]] True Inr Pair Cons clean a show ?thesis
              by (simp add: run_action_def py_input_def clean_outcome_world clean_user_temp_stdin Let_def)
          next
            case False
            with Inr Pair Cons clean a assms show ?thesis by (simp add: run_action_def py_input_def Let_def)
          qed
        qed
      qed
    qed
  next
    case stop
    show ?thesis
    proof (cases "confirm (stdin w)")
      case (Pair r rest)
      show ?thesis
      proof (cases r)
        case (Inl e)
        with Pair stop a assms show ?thesis by (simp add: run_action_def)
      next
        case (Inr ok)
        show ?thesis
        proof (cases ok)
          case True
          with Inr Pair have "confirm (stdin w) = (Inr True, rest)" by simp
          from confirm_yes [OF this] True Inr Pair stop a show ?thesis
            by (simp add: run_action_def stop_onedrive_processes_stdin)
        next
          case False
          with Inr Pair stop a assms show ?thesis by (simp add: run_action_def)
        qed
      qed
    qed
  next
    case other
    with a assms show ?thesis by (simp add: run_action_def)
  qed
qed

lemma interactive_fix_gated:
  assumes "calls (snd (interactive_fix suggestions w)) \<noteq> calls w"
  shows "\<exists>pre l. stdin w = pre @ l # stdin (snd (interactive_fix suggestions w)) \<and> lower (strip l) = ''y''"
proof (cases "stdin w")
  case Nil
  with assms show ?thesis by (simp add: interactive_fix_def py_input_def split: if_splits)
next
  case (Cons x ls)
  from assms Cons obtain choice where
    r: "interactive_fix suggestions w = run_action (suggestions ! nat (choice - 1)) (w\<lparr>stdin := ls\<rparr>)"
    by (auto simp add: interactive_fix_def py_input_def split: if_splits option.splits)
  with assms have "calls (snd (run_action (suggestions ! nat (choice - 1)) (w\<lparr>stdin := ls\<rparr>))) \<noteq> calls (w\<lparr>stdin := ls\<rparr>)"
    by simp
  from run_action_gated [OF this] have
    "\<exists>pre l. ls = pre @ l # stdin (snd (interactive_fix suggestions w)) \<and> lower (strip l) = ''y''"
    using r by simp
  from push_line [OF this] Cons show ?thesis by simp
qed

text \<open>
  C2. With no suggestions the menu returns at once. Otherwise it reads one line; at end
  of input, or when the line is not an integer, is 0 (a blank line counts as 0), or is a
  number outside 1 .. \<open>length suggestions\<close>, it returns normally having read that one
  line and nothing else: no executor is entered, the process table and the files are
  untouched, and the selection is not asked again.
\<close>

theorem interactive_fix_no_selection:
  "interactive_fix [] w = (None, w)
   \<and> (stdin w = [] \<longrightarrow> interactive_fix suggestions w = (None, w))
   \<and> (suggestions \<noteq> [] \<and> stdin w = l # rest \<and>
        (read_choice l = None \<or> read_choice l = Some 0 \<or>
         (\<exists>c. read_choice l = Some c \<and> (c < 1 \<or> int (length suggestions) < c))) \<longrightarrow>
      interactive_fix suggestions w = (None, w\<lparr>stdin := rest\<rparr>))"
  by (auto simp add: interactive_fix_def py_input_def)

theorem interactive_fix_no_selection_witness:
  "read_choice ''abc'' = None \<and> read_choice ''0'' = Some 0 \<and> read_choice ''7'' = Some 7
   \<and> read_choice [] = Some 0
   \<and> interactive_fix ex_suggestions (ex_world\<lparr>stdin := [''abc'', ''y'']\<rparr>) =
       (None, ex_world\<lparr>stdin := [''y'']\<rparr>)
   \<and> interactive_fix ex_suggestions (ex_world\<lparr>stdin := [''0'', ''y'']\<rparr>) =
       (None, ex_world\<lparr>stdin := [''y'']\<rparr>)
   \<and> interactive_fix ex_suggestions (ex_world\<lparr>stdin := [''7'', ''y'']\<rparr>) =
       (None, ex_world\<lparr>stdin := [''y'']\<rparr>)"
  using interactive_fix_no_selection [of "ex_world\<lparr>stdin := [''abc'', ''y'']\<rparr>" ex_suggestions "''abc''" "[''y'']"]
    interactive_fix_no_selection [of "ex_world\<lparr>stdin := [''0'', ''y'']\<rparr>" ex_suggestions "''0''" "[''y'']"]
    interactive_fix_no_selection [of "ex_world\<lparr>stdin := [''7'', ''y'']\<rparr>" ex_suggestions "''7''" "[''y'']"]
  by (simp add: read_choice_def py_int_def max_str_digits_def strip_def is_space_def is_digit_def
      ex_suggestions_def ex_world_def)

text \<open>
  C1, as amended. In fix mode an executor is entered only when the last line read is the
  answer \<^verbatim>\<open>y\<close> after surrounding whitespace is stripped and letters are lower-cased, so
  \<^verbatim>\<open>y\<close>, \<^verbatim>\<open>Y\<close> and \<^verbatim>\<open>Y\<close> followed by a space all proceed. An answer that is
  \<^verbatim>\<open>n\<close> or empty after the same normalisation makes \<^verbatim>\<open>confirm\<close> return false, and
  the action is aborted. Any other answer, such as \<^verbatim>\<open>maybe\<close>, neither proceeds nor
  aborts: the question is asked again.
\<close>

theorem confirmation_gate:
  "(calls (snd (interactive_fix suggestions w)) \<noteq> calls w \<longrightarrow>
      (\<exists>pre l. stdin w = pre @ l # stdin (snd (interactive_fix suggestions w)) \<and>
               lower (strip l) = ''y''))
   \<and> (lower (strip a) = ''y'' \<longrightarrow> confirm (a # ls) = (Inr True, ls))
   \<and> (lower (strip a) = ''n'' \<or> lower (strip a) = [] \<longrightarrow> confirm (a # ls) = (Inr False, ls))
   \<and> (lower (strip a) \<noteq> ''y'' \<and> lower (strip a) \<noteq> ''n'' \<and> lower (strip a) \<noteq> [] \<longrightarrow>
        confirm (a # ls) = confirm ls)"
  using interactive_fix_gated [of suggestions w]
  by (auto simp add: Let_def)

theorem confirmation_gate_witness:
  "calls (snd (interactive_fix ex_suggestions (ex_world\<lparr>stdin := [''1'', ''maybe'', ''Y '']\<rparr>))) \<noteq>
     calls (ex_world\<lparr>stdin := [''1'', ''maybe'', ''Y '']\<rparr>)
   \<and> (\<exists>pre l. [''1'', ''maybe'', ''Y ''] =
         pre @ l # stdin (snd (interactive_fix ex_suggestions
                                 (ex_world\<lparr>stdin := [''1'', ''maybe'', ''Y '']\<rparr>))) \<and>
         lower (strip l) = ''y'')
   \<and> confirm [''y'', ''x''] = (Inr True, [''x''])
   \<and> confirm [''N'', ''y''] = (Inr False, [''y''])
   \<and> confirm [''maybe'', '' ''] = (Inr False, [])"
proof -
  have norm: "lower (strip ''Y '') = ''y''" "lower (strip ''maybe'') = ''maybe''"
    "lower (strip ''y'') = ''y''" "lower (strip ''N'') = ''n''" "lower (strip '' '') = []"
    by code_simp+
  have rc: "read_choice ''1'' = Some 1" by code_simp
  have run: "calls (snd (interactive_fix ex_suggestions (ex_world\<lparr>stdin := [''1'', ''maybe'', ''Y '']\<rparr>))) =
      [Call_kill_process (PInt 10)]"
    by (simp add: interactive_fix_def run_action_def py_input_def rc norm Let_def ex_suggestions_def
        kill_process_calls)
       (simp add: ex_world_def)
  have "calls (snd (interactive_fix ex_suggestions (ex_world\<lparr>stdin := [''1'', ''maybe'', ''Y '']\<rparr>))) \<noteq>
     calls (ex_world\<lparr>stdin := [''1'', ''maybe'', ''Y '']\<rparr>)"
    using run by (simp add: ex_world_def)
  then show ?thesis
    using confirmation_gate [of ex_suggestions "ex_world\<lparr>stdin := [''1'', ''maybe'', ''Y '']\<rparr>" "''y''" "[''x'']"]
      confirmation_gate [of ex_suggestions "ex_world\<lparr>stdin := [''1'', ''maybe'', ''Y '']\<rparr>" "''N''" "[''y'']"]
      confirmation_gate [of ex_suggestions "ex_world\<lparr>stdin := [''1'', ''maybe'', ''Y '']\<rparr>" "''maybe''" "['' '']"]
      confirmation_gate [of ex_suggestions "ex_world\<lparr>stdin := [''1'', ''maybe'', ''Y '']\<rparr>" "'' ''" "[]"]
    by (simp add: norm)
qed

text \<open>
  C1 as stated fails: \<^verbatim>\<open>Y\<close> followed by a space is accepted as the affirmative answer,
  and \<^verbatim>\<open>maybe\<close> does not abort: the prompt is repeated and a later \<^verbatim>\<open>y\<close> runs the
  action.
\<close>

theorem confirmation_gate_counterexample:
  "calls (snd (interactive_fix ex_suggestions (ex_world\<lparr>stdin := [''1'', ''Y '']\<rparr>))) =
     [Call_kill_process (PInt 10)]
   \<and> calls (snd (interactive_fix ex_suggestions (ex_world\<lparr>stdin := [''1'', ''maybe'', ''y'']\<rparr>))) =
     [Call_kill_process (PInt 10)]"
proof -
  have norm: "lower (strip ''Y '') = ''y''" "lower (strip ''maybe'') = ''maybe''"
    "lower (strip ''y'') = ''y''"
    by code_simp+
  have rc: "read_choice ''1'' = Some 1" by code_simp
  show ?thesis
    by (simp add: interactive_fix_def run_action_def py_input_def rc norm Let_def ex_suggestions_def
        kill_process_calls)
       (simp add: ex_world_def)
qed

section \<open>Properties of the rule engine\<close>

lemma sorted_reverse_stable:
  "filter (\<lambda>x. f x = k) (sorted_reverse f xs) = filter (\<lambda>x. f x = k) xs"
proof -
  have "filter (\<lambda>x. f x = k) (sort_key f (rev xs)) = filter (\<lambda>x. f x = k) (rev xs)"
    by (rule sort_key_stable)
  then show ?thesis
    by (simp add: sorted_reverse_def rev_filter [symmetric])
qed

lemma set_sorted_reverse: "set (sorted_reverse f xs) = set xs"
  by (simp add: sorted_reverse_def)

lemma length_sorted_reverse: "length (sorted_reverse f xs) = length xs"
  by (simp add: sorted_reverse_def)

lemma sorted_reverse_strict:
  assumes "distinct (map f xs)"
  shows "sorted_wrt (\<lambda>x y. f y < f x) (sorted_reverse f xs)"
proof -
  let ?S = "sort_key f (rev xs)"
  have inj: "inj_on f (set xs)" and dx: "distinct xs"
    using assms by (simp_all add: distinct_map)
  have "distinct (map f ?S)"
    using inj dx by (simp add: distinct_map)
  moreover have "sorted (map f ?S)" by (rule sorted_sort_key)
  ultimately have "sorted_wrt (<) (map f ?S)"
    by (simp add: strict_sorted_iff)
  then have "sorted_wrt (\<lambda>x y. f x < f y) ?S"
    by (simp add: sorted_wrt_map)
  then show ?thesis
    by (simp add: sorted_reverse_def sorted_wrt_rev)
qed

lemma take3_slice_to:
  "3 \<le> length (slice_to n xs) \<Longrightarrow> take 3 (slice_to n xs) = take 3 xs"
  by (auto simp add: slice_to_def min_def split: if_splits)

lemma rss_key_proc_dict: "rss_key (proc_dict p) = int (mem_of p)"
  by (simp add: rss_key_def proc_dict_def mem_of_def opt_val_def split: option.splits)

lemma kill_suggestions_dicts:
  "kill_suggestions (map proc_dict qs) =
     Inr (map (\<lambda>q. (''kill_process'', Terminate_text (opt_val PStr (pi_name q)) (PInt (pi_pid q)),
                     PInt (pi_pid q))) qs)"
  by (induction qs) (simp_all add: bind_e_def proc_dict_def)

lemma sort_key_map_comm: "sort_key f (map g xs) = map g (sort_key (\<lambda>x. f (g x)) xs)"
proof (induction xs)
  case Nil
  then show ?case by simp
next
  case (Cons x xs)
  have ins: "insort_key f (g x) (map g ys) = map g (insort_key (\<lambda>x. f (g x)) x ys)" for ys
    by (induction ys) simp_all
  show ?case by (simp add: Cons.IH ins)
qed

lemma sorted_reverse_map:
  "sorted_reverse f (map g xs) = map g (sorted_reverse (\<lambda>x. f (g x)) xs)"
  by (simp add: sorted_reverse_def rev_map sort_key_map_comm)

lemma top_three:
  assumes sw: "sorted_wrt (\<lambda>x y. f y < f x) L" and len: "3 \<le> length L"
  shows "\<exists>a b c. take 3 L = [a, b, c] \<and> {a, b, c} \<subseteq> set L \<and> f b < f a \<and> f c < f b \<and>
           (\<forall>q\<in>set L. q \<notin> {a, b, c} \<longrightarrow> f q < f c)"
proof -
  from len obtain a b c rest where L: "L = a # b # c # rest"
    by (metis Suc_le_length_iff numeral_3_eq_3)
  with sw show ?thesis by auto
qed

lemma ex_Not: "Ex Not"
  by (rule exI [of _ False]) simp

lemma accepts_text: "accepts_all con \<Longrightarrow> text_ok con s"
  by (simp add: accepts_all_def text_ok_def can_encode_def list_all_iff)

lemma accepts_repr_text: "accepts_all con \<Longrightarrow> repr_text_ok con s"
  by (simp add: accepts_all_def repr_text_ok_def list_all_iff)

lemma accepts_repr: "accepts_all con \<Longrightarrow> repr_ok con v"
  by (induction v) (auto simp add: list_all_iff accepts_repr_text)

lemma accepts_str: "accepts_all con \<Longrightarrow> str_ok con v"
  by (cases v) (simp_all add: str_ok_def accepts_text accepts_repr list_all_iff accepts_repr_text)

lemma accepts_print: "accepts_all con \<Longrightarrow> py_print con b vs = Inr ()"
  by (simp add: py_print_def accepts_str list_all_iff accepts_all_def)

lemma print_plain [simp]:
  "py_print con False [] = Inr ()"
  "py_print con False (PNone # vs) = py_print con False vs"
  "py_print con False (PInt i # vs) = py_print con False vs"
  "py_print con False (PFloat x # vs) = py_print con False vs"
  "py_print con False (PBool b # vs) = py_print con False vs"
  by (simp_all add: py_print_def str_ok_def)

lemma announce_top_total:
  "accepts_all con \<Longrightarrow> \<forall>x\<in>set ps. \<exists>kvs. x = PDict kvs \<Longrightarrow> announce_top con ps = Inr ()"
  by (induction ps) (auto simp add: bind_e_def accepts_print)

lemma announce_disks_total:
  "accepts_all con \<Longrightarrow> \<forall>x\<in>set ds. \<exists>kvs. x = PDict kvs \<Longrightarrow> announce_disks con ds = Inr ()"
  by (induction ds) (auto simp add: bind_e_def accepts_print)

lemma print_each_total:
  "accepts_all con \<Longrightarrow> \<forall>x\<in>set ps. \<exists>kvs. x = PDict kvs \<Longrightarrow> print_each con ps = Inr ()"
  by (induction ps) (auto simp add: bind_e_def accepts_print)

lemma print_hosts_total: "accepts_all con \<Longrightarrow> print_hosts con hrs = Inr ()"
  by (induction hrs) (simp_all add: bind_e_def accepts_print)

lemma disk_is_high_dict: "disk_is_high d = Inr True \<Longrightarrow> \<exists>kvs. d = PDict kvs"
  by (cases d) simp_all

lemma high_disks_dicts:
  "high_disks ds = Inr hs \<Longrightarrow> \<forall>d\<in>set hs. \<exists>kvs. d = PDict kvs"
proof (induction ds arbitrary: hs)
  case Nil
  then show ?case by simp
next
  case (Cons d ds)
  then show ?case
    by (auto simp add: bind_e_def split: sum.splits if_splits dest: disk_is_high_dict)
qed

lemma kill_suggestions_total:
  "\<forall>x\<in>set ps. \<exists>kvs. x = PDict kvs \<Longrightarrow> \<exists>sg. kill_suggestions ps = Inr sg"
  by (induction ps) (auto simp add: bind_e_def)

lemma kill_suggestions_codes:
  "kill_suggestions ps = Inr sg \<Longrightarrow> \<forall>s\<in>set sg. fst s = ''kill_process''"
proof (induction ps arbitrary: sg)
  case Nil
  then show ?case by simp
next
  case (Cons p ps)
  then show ?case
    by (auto simp add: bind_e_def split: sum.splits)
qed

lemma any_onedrive_total:
  "\<forall>x\<in>set ps. name_ok x \<Longrightarrow> \<exists>b. any_onedrive ps = Inr b"
proof (induction ps)
  case Nil
  then show ?case by (simp add: ex_Not)
next
  case (Cons p ps)
  then obtain b where b: "any_onedrive ps = Inr b" by auto
  from Cons.prems have "name_ok p" by simp
  then show ?case
    using b by (auto simp add: name_ok_def bind_e_def py_or_def ex_Not)
qed

lemma high_disks_total:
  "\<forall>d\<in>set ds. \<exists>b. disk_is_high d = Inr b \<Longrightarrow> \<exists>hd. high_disks ds = Inr hd"
  by (induction ds) (auto simp add: bind_e_def)

lemma high_disks_none:
  "\<forall>d\<in>set ds. disk_is_high d = Inr False \<Longrightarrow> high_disks ds = Inr []"
  by (induction ds) (auto simp add: bind_e_def)

lemma proc_dict_name_ok: "name_ok (proc_dict p)"
  by (cases "pi_name p") (simp_all add: name_ok_def proc_dict_def opt_val_def)

lemma error_dict_name_ok: "name_ok (error_dict msg)"
  by (simp add: name_ok_def error_dict_def)

lemma set_slice_to: "set (slice_to n xs) \<subseteq> set xs"
  by (auto simp add: slice_to_def dest: in_set_takeD)

lemma top_processes_name_ok: "\<forall>x\<in>set (top_processes n pr). name_ok x"
proof (cases "process_iter pr")
  case (Inl msg)
  then show ?thesis by (simp add: top_processes_def error_dict_name_ok)
next
  case (Inr ps)
  have "set (slice_to n (sorted_reverse rss_key (map proc_dict ps))) \<subseteq> proc_dict ` set ps"
    using set_slice_to [of n "sorted_reverse rss_key (map proc_dict ps)"]
    by (simp add: set_sorted_reverse)
  then show ?thesis
    using Inr by (auto simp add: top_processes_def proc_dict_name_ok)
qed

lemma name_ok_dict: "name_ok x \<Longrightarrow> \<exists>kvs. x = PDict kvs"
  by (auto simp add: name_ok_def)

lemma top_processes_dicts: "\<forall>x\<in>set (top_processes n pr). \<exists>kvs. x = PDict kvs"
  using top_processes_name_ok name_ok_dict by blast

lemma disk_entry_high: "\<exists>b. disk_is_high (disk_entry p) = Inr b"
  by (cases "disk_usage p") (simp_all add: disk_entry_def py_gt_def Let_def ex_Not)

lemma disk_info_high: "\<forall>d\<in>set (disk_info pr). \<exists>b. disk_is_high d = Inr b"
  by (cases "disk_partitions pr") (auto simp add: disk_info_def error_dict_def disk_entry_high)

lemma memory_info_dict: "\<exists>kvs. memory_info pr = PDict kvs"
  by (cases "virtual_memory pr") (simp_all add: memory_info_def error_dict_def)

lemma cpu_info_dict: "\<exists>kvs. cpu_info pr = PDict kvs"
  by (cases "cpu_stats pr") (simp_all add: cpu_info_def error_dict_def)

lemma run_checks_error:
  "psutil e = None \<Longrightarrow> \<exists>msg. run_checks a e = error_dict msg"
  by (simp add: run_checks_def) blast

lemma run_checks_sections:
  assumes "psutil e = Some pr"
  shows "py_get (run_checks a e) ''system'' d = Inr (PDict (system_info e))"
    and "py_get (run_checks a e) ''cpu'' d = Inr (cpu_info pr)"
    and "py_get (run_checks a e) ''memory'' d = Inr (memory_info pr)"
    and "py_get (run_checks a e) ''disks'' d = Inr (PList (disk_info pr))"
    and "py_get (run_checks a e) ''top_processes'' d =
           Inr (PList (top_processes (top_processes_n a) pr))"
    and "\<exists>kvs. py_get (run_checks a e) ''pings'' d = Inr (PDict kvs)"
  using assms by (simp_all add: run_checks_def)

lemma checks_on_error:
  "memory_check con (error_dict msg) = Inr ([], [])"
  "cpu_check (error_dict msg) = Inr ([], [])"
  "disk_check con (error_dict msg) = Inr ([], [])"
  "onedrive_check (error_dict msg) = Inr ([], [])"
  "network_check con (error_dict msg) = Inr ([], [])"
  by (simp_all add: memory_check_def cpu_check_def disk_check_def onedrive_check_def
      network_check_def error_dict_def bind_e_def)

lemma suggest_actions_error: "suggest_actions con (error_dict msg) = Inr ([], [])"
  by (simp add: suggest_actions_def checks_on_error bind_e_def)

lemma memory_check_total:
  assumes "psutil e = Some pr" and "accepts_all con"
  shows "\<exists>m. memory_check con (run_checks a e) = Inr m"
proof -
  obtain kvs where m: "memory_info pr = PDict kvs" using memory_info_dict by blast
  obtain sg where sg: "kill_suggestions (take 3 (top_processes (top_processes_n a) pr)) = Inr sg"
    using kill_suggestions_total [of "take 3 (top_processes (top_processes_n a) pr)"]
      top_processes_dicts [of "top_processes_n a" pr]
    by (meson in_set_takeD)
  have an: "announce_top con (take 3 (top_processes (top_processes_n a) pr)) = Inr ()"
    using announce_top_total [OF assms(2), of "take 3 (top_processes (top_processes_n a) pr)"]
      top_processes_dicts [of "top_processes_n a" pr]
    by (meson in_set_takeD)
  show ?thesis
    by (simp add: memory_check_def run_checks_sections [OF assms(1)] m sg an bind_e_def)
qed

lemma cpu_check_total:
  assumes "psutil e = Some pr"
  shows "\<exists>m. cpu_check (run_checks a e) = Inr m"
proof -
  obtain kvs where m: "cpu_info pr = PDict kvs" using cpu_info_dict by blast
  show ?thesis
    by (simp add: cpu_check_def run_checks_sections [OF assms] m bind_e_def)
qed

lemma disk_check_total:
  assumes "psutil e = Some pr" and "accepts_all con"
  shows "\<exists>m. disk_check con (run_checks a e) = Inr m"
proof -
  obtain hd where h: "high_disks (disk_info pr) = Inr hd"
    using high_disks_total [OF disk_info_high] by blast
  have an: "announce_disks con hd = Inr ()"
    using announce_disks_total [OF assms(2) high_disks_dicts [OF h]] .
  show ?thesis
    by (simp add: disk_check_def run_checks_sections [OF assms(1)] h an bind_e_def)
qed

lemma onedrive_check_total:
  assumes "psutil e = Some pr"
  shows "\<exists>m. onedrive_check (run_checks a e) = Inr m"
proof -
  obtain b where b: "any_onedrive (top_processes (top_processes_n a) pr) = Inr b"
    using any_onedrive_total [OF top_processes_name_ok] by blast
  show ?thesis
    by (simp add: onedrive_check_def run_checks_sections [OF assms] b bind_e_def)
qed

lemma network_check_total:
  assumes "psutil e = Some pr" and "accepts_all con"
  shows "\<exists>m. network_check con (run_checks a e) = Inr m"
proof -
  obtain kvs where k: "py_get (run_checks a e) ''pings'' (PDict []) = Inr (PDict kvs)"
    using run_checks_sections(6) [OF assms(1)] by blast
  show ?thesis
    by (simp add: network_check_def k bind_e_def Let_def accepts_print [OF assms(2)])
qed

lemma suggest_actions_run_checks:
  assumes con: "accepts_all con"
  shows "\<exists>adv. suggest_actions con (run_checks a e) = Inr adv"
proof (cases "psutil e")
  case None
  then show ?thesis using run_checks_error [OF None] suggest_actions_error by metis
next
  case (Some pr)
  from memory_check_total [OF Some con] cpu_check_total [OF Some] disk_check_total [OF Some con]
    onedrive_check_total [OF Some] network_check_total [OF Some con]
  obtain m c d od n where
    "memory_check con (run_checks a e) = Inr m" "cpu_check (run_checks a e) = Inr c"
    "disk_check con (run_checks a e) = Inr d" "onedrive_check (run_checks a e) = Inr od"
    "network_check con (run_checks a e) = Inr n"
    by blast
  then show ?thesis by (simp add: suggest_actions_def bind_e_def)
qed

lemma pretty_print_summary_error: "pretty_print_summary con (error_dict msg) = Inr ()"
  by (simp add: pretty_print_summary_def error_dict_def bind_e_def)

lemma pretty_print_summary_run_checks:
  assumes con: "accepts_all con"
  shows "pretty_print_summary con (run_checks a e) = Inr ()"
proof (cases "psutil e")
  case None
  then show ?thesis
    using run_checks_error [OF None] pretty_print_summary_error by metis
next
  case (Some pr)
  obtain mk where m: "memory_info pr = PDict mk" using memory_info_dict by blast
  obtain ck where c: "cpu_info pr = PDict ck" using cpu_info_dict by blast
  obtain pk where p: "py_get (run_checks a e) ''pings'' PNone = Inr (PDict pk)"
    using run_checks_sections(6) [OF Some] by blast
  have g: "print_each con (take 5 (top_processes (top_processes_n a) pr)) = Inr ()"
    using print_each_total [OF con, of "take 5 (top_processes (top_processes_n a) pr)"]
      top_processes_dicts [of "top_processes_n a" pr]
    by (meson in_set_takeD)
  show ?thesis
    by (simp add: pretty_print_summary_def run_checks_sections(1-5) [OF Some] m c p g bind_e_def
        accepts_print [OF con] print_hosts_total [OF con])
qed

lemma memory_check_shape:
  "memory_check con r = Inr m \<Longrightarrow>
   set (fst m) \<subseteq> {Memory_high} \<and> (\<forall>s\<in>set (snd m). fst s = ''kill_process'')"
  by (auto simp add: memory_check_def bind_e_def split: sum.splits if_splits
      dest!: kill_suggestions_codes)

lemma cpu_check_shape:
  "cpu_check r = Inr c \<Longrightarrow> set (fst c) \<subseteq> {Cpu_high} \<and> snd c = []"
  by (auto simp add: cpu_check_def bind_e_def split: sum.splits if_splits)

lemma disk_check_shape:
  "disk_check con r = Inr d \<Longrightarrow>
   set (fst d) \<subseteq> {Disk_high} \<and> (\<forall>s\<in>set (snd d). fst s = ''clean_temp'')"
  by (auto simp add: disk_check_def bind_e_def split: sum.splits if_splits)

lemma onedrive_check_shape:
  "onedrive_check r = Inr od \<Longrightarrow>
   set (fst od) \<subseteq> {Background_sync_detected} \<and> (\<forall>s\<in>set (snd od). fst s = ''stop_onedrive'')"
  by (auto simp add: onedrive_check_def bind_e_def split: sum.splits if_splits)

lemma network_check_shape:
  "network_check con r = Inr n \<Longrightarrow> set (fst n) \<subseteq> {Network_unreachable} \<and> snd n = []"
  by (auto simp add: network_check_def bind_e_def Let_def split: sum.splits if_splits pyval.splits)

lemma suggest_actions_parts:
  assumes "suggest_actions con r = Inr (fs, sg)"
  shows "\<exists>m c d od n. memory_check con r = Inr m \<and> cpu_check r = Inr c \<and> disk_check con r = Inr d \<and>
           onedrive_check r = Inr od \<and> network_check con r = Inr n \<and>
           fs = fst m @ fst c @ fst d @ fst od @ fst n \<and>
           sg = snd m @ snd c @ snd d @ snd od @ snd n"
  using assms
  by (auto simp add: suggest_actions_def bind_e_def split: sum.splits)

lemma memory_guard:
  assumes "py_get report ''memory'' (PDict []) = Inr mem" and "py_get mem ''percent'' PNone = Inr v"
    and "num_of v = None" and "suggest_actions con report = Inr (fs, sg)"
  shows "Memory_high \<notin> set fs \<and> (\<forall>s\<in>set sg. fst s \<noteq> ''kill_process'')"
proof -
  from suggest_actions_parts [OF assms(4)] obtain m c d od n where
    p: "memory_check con report = Inr m" "cpu_check report = Inr c" "disk_check con report = Inr d"
       "onedrive_check report = Inr od" "network_check con report = Inr n"
       "fs = fst m @ fst c @ fst d @ fst od @ fst n"
       "sg = snd m @ snd c @ snd d @ snd od @ snd n"
    by blast
  have "memory_check con report = Inr ([], [])"
    using assms(1-3) by (simp add: memory_check_def bind_e_def)
  with p(1) have m: "fst m = []" "snd m = []" by auto
  show ?thesis
    using m p(6,7) cpu_check_shape [OF p(2)] disk_check_shape [OF p(3)]
      onedrive_check_shape [OF p(4)] network_check_shape [OF p(5)]
    by auto
qed

lemma cpu_guard:
  assumes "py_get report ''cpu'' (PDict []) = Inr cpu"
    and "py_get cpu ''cpu_percent_overall'' PNone = Inr v"
    and "num_of v = None" and "suggest_actions con report = Inr (fs, sg)"
  shows "Cpu_high \<notin> set fs"
proof -
  from suggest_actions_parts [OF assms(4)] obtain m c d od n where
    p: "memory_check con report = Inr m" "cpu_check report = Inr c" "disk_check con report = Inr d"
       "onedrive_check report = Inr od" "network_check con report = Inr n"
       "fs = fst m @ fst c @ fst d @ fst od @ fst n"
    by blast
  have "cpu_check report = Inr ([], [])"
    using assms(1-3) by (simp add: cpu_check_def bind_e_def)
  with p(2) have c: "fst c = []" by auto
  show ?thesis
    using c p(6) memory_check_shape [OF p(1)] disk_check_shape [OF p(3)]
      onedrive_check_shape [OF p(4)] network_check_shape [OF p(5)]
    by auto
qed

lemma disk_not_high:
  "\<forall>kvs. d = PDict kvs \<longrightarrow>
      \<not> truthy (case map_of kvs ''percent'' of None \<Rightarrow> PNone | Some x \<Rightarrow> x) \<Longrightarrow>
   disk_is_high d = Inr False"
  by (cases d) (simp_all add: Let_def)

lemma disk_guard:
  assumes "py_get report ''disks'' (PList []) = Inr (PList ds)"
    and "\<forall>d\<in>set ds. \<forall>kvs. d = PDict kvs \<longrightarrow>
           \<not> truthy (case map_of kvs ''percent'' of None \<Rightarrow> PNone | Some x \<Rightarrow> x)"
    and "suggest_actions con report = Inr (fs, sg)"
  shows "Disk_high \<notin> set fs \<and> (\<forall>s\<in>set sg. fst s \<noteq> ''clean_temp'')"
proof -
  from suggest_actions_parts [OF assms(3)] obtain m c d od n where
    p: "memory_check con report = Inr m" "cpu_check report = Inr c" "disk_check con report = Inr d"
       "onedrive_check report = Inr od" "network_check con report = Inr n"
       "fs = fst m @ fst c @ fst d @ fst od @ fst n"
       "sg = snd m @ snd c @ snd d @ snd od @ snd n"
    by blast
  have "high_disks ds = Inr []"
    using assms(2) by (intro high_disks_none) (simp add: disk_not_high)
  then have "disk_check con report = Inr ([], [])"
    using assms(1) by (simp add: disk_check_def bind_e_def)
  with p(3) have d: "fst d = []" "snd d = []" by auto
  show ?thesis
    using d p(6,7) memory_check_shape [OF p(1)] cpu_check_shape [OF p(2)]
      onedrive_check_shape [OF p(4)] network_check_shape [OF p(5)]
    by auto
qed

lemma slice_to_map: "slice_to n (map g xs) = map g (slice_to n xs)"
  by (simp add: slice_to_def take_map)

lemma length_slice_to: "length (slice_to n xs) \<le> length xs"
  by (simp add: slice_to_def)

lemma kill_payloads:
  assumes "suggest_actions con r = Inr (fs, sg)" and "memory_check con r = Inr m"
  shows "filter (\<lambda>s. fst s = ''kill_process'') sg = snd m"
proof -
  from suggest_actions_parts [OF assms(1)] assms(2) obtain c d od n where
    p: "cpu_check r = Inr c" "disk_check con r = Inr d"
       "onedrive_check r = Inr od" "network_check con r = Inr n"
       "sg = snd m @ snd c @ snd d @ snd od @ snd n"
    by auto
  have a: "filter (\<lambda>s. fst s = ''kill_process'') (snd m) = snd m"
    using memory_check_shape [OF assms(2)] by (simp add: filter_id_conv)
  have b: "filter (\<lambda>s. fst s = ''kill_process'') (snd d) = []"
    using disk_check_shape [OF p(2)] by (auto simp add: filter_empty_conv)
  have c: "filter (\<lambda>s. fst s = ''kill_process'') (snd od) = []"
    using onedrive_check_shape [OF p(3)] by (auto simp add: filter_empty_conv)
  show ?thesis
    using a b c p(5) cpu_check_shape [OF p(1)] network_check_shape [OF p(4)] by simp
qed

lemma announce_top_procs:
  "accepts_all con \<Longrightarrow> announce_top con (map proc_dict qs) = Inr ()"
  by (rule announce_top_total) (auto simp add: proc_dict_def)

lemma announce_top_no_bullet:
  "\<not> encodes_bullet con \<Longrightarrow> announce_top con (proc_dict q # rest) = Inl UnicodeEncodeError"
  by (simp add: bind_e_def proc_dict_def py_print_def)

lemma memory_check_no_bullet:
  assumes e: "psutil e = Some pr" and v: "virtual_memory pr = Inr v" and hi: "80 < vm_percent v"
    and ps: "process_iter pr = Inr ps" and nb: "\<not> encodes_bullet con"
    and ne: "slice_to (top_processes_n a) (sorted_reverse (\<lambda>p. int (mem_of p)) ps) \<noteq> []"
  shows "memory_check con (run_checks a e) = Inl UnicodeEncodeError"
proof -
  let ?L = "slice_to (top_processes_n a) (sorted_reverse (\<lambda>p. int (mem_of p)) ps)"
  have tp: "top_processes (top_processes_n a) pr = map proc_dict ?L"
    using ps by (simp add: top_processes_def sorted_reverse_map rss_key_proc_dict slice_to_map)
  have pct: "py_get (memory_info pr) ''percent'' PNone = Inr (PFloat (vm_percent v))"
    using v by (simp add: memory_info_def)
  from ne obtain q qs where q: "?L = q # qs" by (cases ?L) auto
  have "announce_top con (take 3 (map proc_dict ?L)) = Inl UnicodeEncodeError"
    unfolding q using announce_top_no_bullet [OF nb] by simp
  then show ?thesis
    using hi by (simp add: memory_check_def run_checks_sections [OF e] pct tp bind_e_def)
qed

lemma memory_check_high:
  assumes e: "psutil e = Some pr" and v: "virtual_memory pr = Inr v" and hi: "80 < vm_percent v"
    and ps: "process_iter pr = Inr ps" and con: "accepts_all con"
  shows "memory_check con (run_checks a e) =
     Inr ([Memory_high],
          map (\<lambda>q. (''kill_process'', Terminate_text (opt_val PStr (pi_name q)) (PInt (pi_pid q)),
                     PInt (pi_pid q)))
            (take 3 (slice_to (top_processes_n a) (sorted_reverse (\<lambda>p. int (mem_of p)) ps))))"
proof -
  have tp: "top_processes (top_processes_n a) pr =
      map proc_dict (slice_to (top_processes_n a) (sorted_reverse (\<lambda>p. int (mem_of p)) ps))"
    using ps by (simp add: top_processes_def sorted_reverse_map rss_key_proc_dict slice_to_map)
  have pct: "py_get (memory_info pr) ''percent'' PNone = Inr (PFloat (vm_percent v))"
    using v by (simp add: memory_info_def)
  show ?thesis
    using hi
    by (simp add: memory_check_def run_checks_sections [OF e] pct tp bind_e_def
        take_map kill_suggestions_dicts announce_top_procs [OF con])
qed

lemma int_mem_distinct: "distinct (map mem_of ps) \<Longrightarrow> distinct (map (\<lambda>p. int (mem_of p)) ps)"
  by (simp add: distinct_map inj_on_def)

lemma length_top_processes:
  "process_iter pr = Inr ps \<Longrightarrow> 0 \<le> n \<Longrightarrow> length (top_processes n pr) = min (nat n) (length ps)"
  by (simp add: top_processes_def slice_to_def length_sorted_reverse)

lemma sorted_reverse_sorted:
  "sorted_wrt (\<lambda>x y. f y \<le> f x) (sorted_reverse f xs)"
proof -
  have "sorted (map f (sort_key f (rev xs)))" by (rule sorted_sort_key)
  then have "sorted_wrt (\<lambda>x y. f x \<le> f y) (sort_key f (rev xs))"
    by (simp add: sorted_map)
  then show ?thesis
    by (simp add: sorted_reverse_def sorted_wrt_rev)
qed

lemma ex_sorted:
  "sorted_reverse (\<lambda>p. int (mem_of p)) ex_procs =
     [ex_procs ! 3, ex_procs ! 4, ex_procs ! 2, ex_procs ! 0, ex_procs ! 1]"
  by (simp add: sorted_reverse_def ex_procs_def mem_of_def)

lemma ex_run:
  "psutil ex_env = Some ex_provider" "virtual_memory ex_provider = Inr ex_vm"
  "80 < vm_percent ex_vm" "process_iter ex_provider = Inr ex_procs"
  by (simp_all add: ex_env_def ex_provider_def ex_vm_def)

lemma ex_kill_pids:
  "map (\<lambda>s. snd (snd s))
     (filter (\<lambda>s. fst s = ''kill_process'')
        (snd (projr (suggest_actions ex_utf8_console (run_checks ex_args ex_env))))) =
   [PInt 4, PInt 5, PInt 3]"
proof -
  have con: "accepts_all ex_utf8_console" by (simp add: accepts_all_def ex_utf8_console_def)
  obtain fs sg where s: "suggest_actions ex_utf8_console (run_checks ex_args ex_env) = Inr (fs, sg)"
    using suggest_actions_run_checks [OF con] by fastforce
  have "filter (\<lambda>s. fst s = ''kill_process'') sg =
      map (\<lambda>q. (''kill_process'', Terminate_text (opt_val PStr (pi_name q)) (PInt (pi_pid q)),
                 PInt (pi_pid q)))
        (take 3 (slice_to (top_processes_n ex_args) (sorted_reverse (\<lambda>p. int (mem_of p)) ex_procs)))"
    using kill_payloads [OF s memory_check_high [OF ex_run con]] by simp
  then have "map (\<lambda>s. snd (snd s)) (filter (\<lambda>s. fst s = ''kill_process'') sg) =
      [PInt 4, PInt 5, PInt 3]"
    by (simp add: ex_sorted slice_to_def ex_args_def) (simp add: ex_procs_def)
  then show ?thesis by (simp add: s)
qed

lemma ex_no_bullet:
  assumes "\<not> encodes_bullet con"
  shows "suggest_actions con (run_checks ex_args ex_env) = Inl UnicodeEncodeError"
proof -
  have ne: "slice_to (top_processes_n ex_args) (sorted_reverse (\<lambda>p. int (mem_of p)) ex_procs) \<noteq> []"
    by (simp add: ex_sorted slice_to_def ex_args_def)
  show ?thesis
    by (simp add: suggest_actions_def memory_check_no_bullet [OF ex_run assms ne] bind_e_def)
qed

text \<open>
  C6, as amended. Take a run in which psutil reports memory use above 80 percent and the
  snapshot \<^verbatim>\<open>run_checks\<close> builds holds at least three processes, on a standard output
  that encodes every character. Then \<^verbatim>\<open>suggest_actions\<close> returns, and its
  \<^verbatim>\<open>kill_process\<close> suggestions are exactly three; their payloads are, in this order,
  the pids of the first three processes of the list \<open>L\<close> that holds the provider's
  processes by descending memory (\<^verbatim>\<open>memory_rss\<close>, 0 when unknown), processes of equal
  memory in the provider's order. When the memories are pairwise distinct, \<open>L\<close> is
  strictly descending.
\<close>

theorem memory_high_suggests_top_three:
  assumes e: "psutil e = Some pr" and v: "virtual_memory pr = Inr v" and hi: "80 < vm_percent v"
    and ps: "process_iter pr = Inr ps"
    and len: "3 \<le> length (top_processes (top_processes_n a) pr)"
    and con: "accepts_all con"
  shows "\<exists>fs sg L. suggest_actions con (run_checks a e) = Inr (fs, sg) \<and>
           map (\<lambda>s. snd (snd s)) (filter (\<lambda>s. fst s = ''kill_process'') sg) =
             map (\<lambda>p. PInt (pi_pid p)) (take 3 L) \<and>
           length (take 3 L) = 3 \<and>
           sorted_wrt (\<lambda>x y. mem_of y \<le> mem_of x) L \<and>
           (\<forall>k. filter (\<lambda>p. mem_of p = k) L = filter (\<lambda>p. mem_of p = k) ps) \<and>
           (distinct (map mem_of ps) \<longrightarrow> sorted_wrt (\<lambda>x y. mem_of y < mem_of x) L)"
proof -
  let ?L = "sorted_reverse (\<lambda>p. int (mem_of p)) ps"
  let ?n = "top_processes_n a"
  have tp: "top_processes ?n pr = map proc_dict (slice_to ?n ?L)"
    using ps by (simp add: top_processes_def sorted_reverse_map rss_key_proc_dict slice_to_map)
  with len have l3: "3 \<le> length (slice_to ?n ?L)" by simp
  then have lenL: "3 \<le> length ?L" using length_slice_to [of ?n ?L] by linarith
  from suggest_actions_run_checks [OF con] obtain fs sg where
    s: "suggest_actions con (run_checks a e) = Inr (fs, sg)" by fastforce
  have k: "filter (\<lambda>s. fst s = ''kill_process'') sg =
      map (\<lambda>q. (''kill_process'', Terminate_text (opt_val PStr (pi_name q)) (PInt (pi_pid q)),
                 PInt (pi_pid q))) (take 3 ?L)"
    using kill_payloads [OF s memory_check_high [OF e v hi ps con]] take3_slice_to [OF l3]
    by simp
  have pay: "map (\<lambda>s. snd (snd s)) (filter (\<lambda>s. fst s = ''kill_process'') sg) =
             map (\<lambda>p. PInt (pi_pid p)) (take 3 ?L)"
    by (simp add: k)
  have three: "length (take 3 ?L) = 3" using lenL by simp
  have "sorted_wrt (\<lambda>x y. int (mem_of y) \<le> int (mem_of x)) ?L"
    by (rule sorted_reverse_sorted)
  then have desc: "sorted_wrt (\<lambda>x y. mem_of y \<le> mem_of x) ?L" by simp
  have "filter (\<lambda>p. int (mem_of p) = int k) ?L = filter (\<lambda>p. int (mem_of p) = int k) ps" for k
    by (rule sorted_reverse_stable)
  then have stable: "\<forall>k. filter (\<lambda>p. mem_of p = k) ?L = filter (\<lambda>p. mem_of p = k) ps"
    by simp
  have strict: "distinct (map mem_of ps) \<longrightarrow> sorted_wrt (\<lambda>x y. mem_of y < mem_of x) ?L"
  proof
    assume "distinct (map mem_of ps)"
    from sorted_reverse_strict [OF int_mem_distinct [OF this]]
    show "sorted_wrt (\<lambda>x y. mem_of y < mem_of x) ?L" by simp
  qed
  from s pay three desc stable strict show ?thesis by blast
qed

theorem memory_high_suggests_top_three_witness:
  "(\<exists>fs sg L. suggest_actions ex_utf8_console (run_checks ex_args ex_env) = Inr (fs, sg) \<and>
           map (\<lambda>s. snd (snd s)) (filter (\<lambda>s. fst s = ''kill_process'') sg) =
             map (\<lambda>p. PInt (pi_pid p)) (take 3 L) \<and>
           length (take 3 L) = 3 \<and>
           sorted_wrt (\<lambda>x y. mem_of y \<le> mem_of x) L \<and>
           (\<forall>k. filter (\<lambda>p. mem_of p = k) L = filter (\<lambda>p. mem_of p = k) ex_procs))
   \<and> map (\<lambda>s. snd (snd s))
        (filter (\<lambda>s. fst s = ''kill_process'')
           (snd (projr (suggest_actions ex_utf8_console (run_checks ex_args ex_env))))) =
       [PInt 4, PInt 5, PInt 3]
   \<and> \<not> distinct (map mem_of ex_procs)"
proof -
  have con: "accepts_all ex_utf8_console" by (simp add: accepts_all_def ex_utf8_console_def)
  have len: "3 \<le> length (top_processes (top_processes_n ex_args) ex_provider)"
    by (simp add: length_top_processes [OF ex_run(4)] ex_args_def ex_procs_def)
  have tie: "\<not> distinct (map mem_of ex_procs)" by (simp add: ex_procs_def mem_of_def)
  from memory_high_suggests_top_three [OF ex_run len con]
  have "\<exists>fs sg L. suggest_actions ex_utf8_console (run_checks ex_args ex_env) = Inr (fs, sg) \<and>
           map (\<lambda>s. snd (snd s)) (filter (\<lambda>s. fst s = ''kill_process'') sg) =
             map (\<lambda>p. PInt (pi_pid p)) (take 3 L) \<and>
           length (take 3 L) = 3 \<and>
           sorted_wrt (\<lambda>x y. mem_of y \<le> mem_of x) L \<and>
           (\<forall>k. filter (\<lambda>p. mem_of p = k) L = filter (\<lambda>p. mem_of p = k) ex_procs)"
    by blast
  with ex_kill_pids tie show ?thesis by blast
qed

text \<open>
  C6 as stated fails: with memory at 95 percent and five processes, on a standard output
  that has no bullet character (Latin-1, for one), \<^verbatim>\<open>suggest_actions\<close> raises
  \<^verbatim>\<open>UnicodeEncodeError\<close> at the first line of the top memory users and returns no
  suggestion.
\<close>

theorem memory_high_suggests_top_three_counterexample:
  "suggest_actions ex_latin1_console (run_checks ex_args ex_env) = Inl UnicodeEncodeError
   \<and> virtual_memory ex_provider = Inr ex_vm \<and> 80 < vm_percent ex_vm
   \<and> length (top_processes (top_processes_n ex_args) ex_provider) = 5"
proof -
  have nb: "\<not> encodes_bullet ex_latin1_console" by (simp add: ex_latin1_console_def)
  have len: "length (top_processes (top_processes_n ex_args) ex_provider) = 5"
    by (simp add: length_top_processes [OF ex_run(4)] ex_args_def ex_procs_def)
  from ex_no_bullet [OF nb] ex_run(2,3) len show ?thesis by simp
qed

lemma is_dict_iff: "is_dict v \<longleftrightarrow> (\<exists>kvs. v = PDict kvs)"
  by (cases v) simp_all

lemma entry_ok_name_ok:
  assumes "entry_ok p"
  shows "name_ok p"
proof -
  from assms obtain kvs where p: "p = PDict kvs"
    by (cases p) (simp_all add: entry_ok_def)
  show ?thesis
  proof (cases "map_of kvs ''name''")
    case None
    then show ?thesis by (simp add: name_ok_def p)
  next
    case (Some v)
    with assms p show ?thesis
      by (cases v) (simp_all add: entry_ok_def name_ok_def)
  qed
qed

lemma disk_ok_high:
  assumes "disk_ok d"
  shows "\<exists>b. disk_is_high d = Inr b"
proof -
  from assms obtain kvs where d: "d = PDict kvs"
    by (cases d) (simp_all add: disk_ok_def)
  show ?thesis
  proof (cases "map_of kvs ''percent''")
    case None
    then show ?thesis by (simp add: d ex_Not)
  next
    case (Some v)
    with assms d show ?thesis
      by (cases v) (simp_all add: disk_ok_def py_gt_def Let_def ex_Not)
  qed
qed

lemma section_default:
  assumes "section_ok P kvs k" and "P d"
  shows "\<exists>v. py_get (PDict kvs) k d = Inr v \<and> P v"
  using assms by (cases "map_of kvs k") (simp_all add: section_ok_def)

lemma list_of_iff: "list_of P v \<longleftrightarrow> (\<exists>xs. v = PList xs \<and> (\<forall>x\<in>set xs. P x))"
  by (cases v) (simp_all add: list_of_def list_all_iff)

lemma shaped_total:
  assumes "snapshot_shaped report" and con: "accepts_all con"
  shows "\<exists>adv. suggest_actions con report = Inr adv"
proof -
  obtain kvs where r: "report = PDict kvs"
    and s: "section_ok is_dict kvs ''memory''" "section_ok is_dict kvs ''cpu''"
      "section_ok (list_of disk_ok) kvs ''disks''"
      "section_ok (list_of entry_ok) kvs ''top_processes''"
      "section_ok is_dict kvs ''pings''"
    using assms(1) by (cases report) (simp_all add: snapshot_shaped_def)
  obtain mk where mem: "py_get report ''memory'' (PDict []) = Inr (PDict mk)"
    using section_default [OF s(1), of "PDict []"] r by (auto simp add: is_dict_iff)
  obtain ck where cpu: "py_get report ''cpu'' (PDict []) = Inr (PDict ck)"
    using section_default [OF s(2), of "PDict []"] r by (auto simp add: is_dict_iff)
  obtain ds where disks: "py_get report ''disks'' (PList []) = Inr (PList ds)"
    and dok: "\<forall>d\<in>set ds. disk_ok d"
    using section_default [OF s(3), of "PList []"] r by (auto simp add: list_of_iff)
  obtain ps where tp: "py_get report ''top_processes'' (PList []) = Inr (PList ps)"
    and pok: "\<forall>p\<in>set ps. entry_ok p"
    using section_default [OF s(4), of "PList []"] r by (auto simp add: list_of_iff)
  obtain pk where pings: "py_get report ''pings'' (PDict []) = Inr (PDict pk)"
    using section_default [OF s(5), of "PDict []"] r by (auto simp add: is_dict_iff)
  have names: "\<forall>p\<in>set ps. name_ok p" using pok entry_ok_name_ok by blast
  obtain sg where sg: "kill_suggestions (take 3 ps) = Inr sg"
    using kill_suggestions_total [of "take 3 ps"] names name_ok_dict
    by (meson in_set_takeD)
  obtain hd where hd: "high_disks ds = Inr hd"
    using high_disks_total [of ds] dok disk_ok_high by blast
  obtain b where b: "any_onedrive ps = Inr b"
    using any_onedrive_total [of ps] names by blast
  have an: "announce_top con (take 3 ps) = Inr ()"
    using announce_top_total [OF con, of "take 3 ps"] names name_ok_dict
    by (meson in_set_takeD)
  have ad: "announce_disks con hd = Inr ()"
    using announce_disks_total [OF con high_disks_dicts [OF hd]] .
  have m: "\<exists>m. memory_check con report = Inr m"
    by (simp add: memory_check_def mem tp sg an bind_e_def)
  have c: "\<exists>c. cpu_check report = Inr c"
    by (simp add: cpu_check_def cpu bind_e_def)
  have d: "\<exists>d. disk_check con report = Inr d"
    by (simp add: disk_check_def disks hd ad bind_e_def)
  have od: "\<exists>od. onedrive_check report = Inr od"
    by (simp add: onedrive_check_def tp b bind_e_def)
  have n: "\<exists>n. network_check con report = Inr n"
    by (simp add: network_check_def pings bind_e_def Let_def accepts_print [OF con])
  from m c d od n obtain m' c' d' od' n' where
    "memory_check con report = Inr m'" "cpu_check report = Inr c'" "disk_check con report = Inr d'"
    "onedrive_check report = Inr od'" "network_check con report = Inr n'"
    by blast
  then show ?thesis by (simp add: suggest_actions_def bind_e_def)
qed

lemma proc_dict_entry_ok: "entry_ok (proc_dict p)"
  by (cases "pi_name p") (simp_all add: entry_ok_def proc_dict_def opt_val_def)

lemma error_dict_entry_ok: "entry_ok (error_dict msg)"
  by (simp add: entry_ok_def error_dict_def)

lemma top_processes_entry_ok: "\<forall>x\<in>set (top_processes n pr). entry_ok x"
proof (cases "process_iter pr")
  case (Inl msg)
  then show ?thesis by (simp add: top_processes_def error_dict_entry_ok)
next
  case (Inr ps)
  have "set (slice_to n (sorted_reverse rss_key (map proc_dict ps))) \<subseteq> proc_dict ` set ps"
    using set_slice_to [of n "sorted_reverse rss_key (map proc_dict ps)"]
    by (simp add: set_sorted_reverse)
  then show ?thesis
    using Inr by (auto simp add: top_processes_def proc_dict_entry_ok)
qed

lemma disk_entry_ok: "disk_ok (disk_entry p)"
  by (cases "disk_usage p") (simp_all add: disk_entry_def disk_ok_def)

lemma error_dict_disk_ok: "disk_ok (error_dict msg)"
  by (simp add: disk_ok_def error_dict_def)

lemma disk_info_ok: "\<forall>d\<in>set (disk_info pr). disk_ok d"
  by (cases "disk_partitions pr") (auto simp add: disk_info_def error_dict_disk_ok disk_entry_ok)

lemma run_checks_shaped: "snapshot_shaped (run_checks a e)"
proof (cases "psutil e")
  case None
  then show ?thesis
    by (simp add: run_checks_def error_dict_def snapshot_shaped_def section_ok_def)
next
  case (Some pr)
  obtain mk where m: "memory_info pr = PDict mk" using memory_info_dict by blast
  obtain ck where c: "cpu_info pr = PDict ck" using cpu_info_dict by blast
  show ?thesis
    using Some
    by (simp add: run_checks_def snapshot_shaped_def section_ok_def m c list_of_def
        list_all_iff disk_info_ok top_processes_entry_ok)
qed

text \<open>
  C7, as amended. On a standard output that encodes every character,
  \<^verbatim>\<open>suggest_actions\<close> returns a list of suggestions on every report of the snapshot
  shape, whichever sections are missing or hold an error marker; every report
  \<^verbatim>\<open>run_checks\<close> can build, whatever psutil returns or raises in each collector, has
  this shape. On the report that holds only the error marker it returns no finding and no
  suggestion, whatever standard output encodes. On any report, a memory percentage that
  is absent or not a number gives no memory finding and no \<^verbatim>\<open>kill_process\<close>
  suggestion, a CPU percentage that is absent or not a number gives no CPU finding, and
  disk entries whose percentage is absent, \<open>None\<close> or zero give no disk finding and no
  \<^verbatim>\<open>clean_temp\<close> suggestion.
\<close>

theorem rule_engine_total:
  "(accepts_all con \<and> snapshot_shaped report \<longrightarrow> (\<exists>adv. suggest_actions con report = Inr adv))
   \<and> snapshot_shaped (run_checks a e)
   \<and> (accepts_all con \<longrightarrow> (\<exists>adv. suggest_actions con (run_checks a e) = Inr adv))
   \<and> (psutil e = None \<longrightarrow> suggest_actions con (run_checks a e) = Inr ([], []))
   \<and> suggest_actions con (error_dict msg) = Inr ([], [])
   \<and> (py_get report ''memory'' (PDict []) = Inr mem \<and> py_get mem ''percent'' PNone = Inr v \<and>
        num_of v = None \<and> suggest_actions con report = Inr (fs, sg) \<longrightarrow>
        Memory_high \<notin> set fs \<and> (\<forall>s\<in>set sg. fst s \<noteq> ''kill_process''))
   \<and> (py_get report ''cpu'' (PDict []) = Inr cpu \<and>
        py_get cpu ''cpu_percent_overall'' PNone = Inr v' \<and>
        num_of v' = None \<and> suggest_actions con report = Inr (fs, sg) \<longrightarrow>
        Cpu_high \<notin> set fs)
   \<and> (py_get report ''disks'' (PList []) = Inr (PList ds) \<and>
        (\<forall>d\<in>set ds. \<forall>kvs. d = PDict kvs \<longrightarrow>
           \<not> truthy (case map_of kvs ''percent'' of None \<Rightarrow> PNone | Some x \<Rightarrow> x)) \<and>
        suggest_actions con report = Inr (fs, sg) \<longrightarrow>
        Disk_high \<notin> set fs \<and> (\<forall>s\<in>set sg. fst s \<noteq> ''clean_temp''))"
proof -
  have none: "psutil e = None \<longrightarrow> suggest_actions con (run_checks a e) = Inr ([], [])"
    using run_checks_error [of e a] suggest_actions_error by auto
  show ?thesis
    using shaped_total [of report con] run_checks_shaped [of a e]
      suggest_actions_run_checks [of con a e] none suggest_actions_error [of con msg]
      memory_guard [of report mem v con fs sg] cpu_guard [of report cpu v' con fs sg]
      disk_guard [of report ds con fs sg]
    by blast
qed

theorem rule_engine_total_witness:
  "snapshot_shaped ex_partial_report
   \<and> (\<exists>adv. suggest_actions ex_utf8_console ex_partial_report = Inr adv)
   \<and> snapshot_shaped (run_checks ex_args ex_env)
   \<and> (\<exists>adv. suggest_actions ex_utf8_console (run_checks ex_args ex_env) = Inr adv)
   \<and> suggest_actions ex_ascii_console (run_checks ex_args ex_env_no_psutil) = Inr ([], [])
   \<and> suggest_actions ex_ascii_console (error_dict ''metrics unavailable'') = Inr ([], [])
   \<and> suggest_actions ex_utf8_console ex_partial_report = Inr ([], [])
   \<and> Memory_high \<notin> set (fst (projr (suggest_actions ex_utf8_console ex_partial_report)))
   \<and> Cpu_high \<notin> set (fst (projr (suggest_actions ex_utf8_console ex_partial_report)))
   \<and> Disk_high \<notin> set (fst (projr (suggest_actions ex_utf8_console ex_partial_report)))"
proof -
  have con: "accepts_all ex_utf8_console" by (simp add: accepts_all_def ex_utf8_console_def)
  have val: "suggest_actions ex_utf8_console ex_partial_report = Inr ([], [])"
    by (simp add: suggest_actions_def memory_check_def cpu_check_def disk_check_def
        onedrive_check_def network_check_def bind_e_def ex_partial_report_def Let_def)
  note k = rule_engine_total [where a = ex_args and msg = "''metrics unavailable''"
      and report = ex_partial_report and fs = "[]" and sg = "[]"]
  have n: "psutil ex_env_no_psutil = None" by (simp add: ex_env_no_psutil_def)
  have sh: "snapshot_shaped ex_partial_report"
    by (simp add: snapshot_shaped_def section_ok_def list_of_def disk_ok_def
        ex_partial_report_def)
  have a0: "\<exists>adv. suggest_actions ex_utf8_console ex_partial_report = Inr adv"
    using k [where e = ex_env and con = ex_utf8_console] sh con by blast
  have a1: "snapshot_shaped (run_checks ex_args ex_env)"
    using k [where e = ex_env and con = ex_utf8_console] by blast
  have a: "\<exists>adv. suggest_actions ex_utf8_console (run_checks ex_args ex_env) = Inr adv"
    using k [where e = ex_env and con = ex_utf8_console] con by blast
  have b: "suggest_actions ex_ascii_console (run_checks ex_args ex_env_no_psutil) = Inr ([], [])"
    using k [where e = ex_env_no_psutil and con = ex_ascii_console] n by blast
  have c: "suggest_actions ex_ascii_console (error_dict ''metrics unavailable'') = Inr ([], [])"
    using k [where con = ex_ascii_console] by blast
  show ?thesis using sh a0 a1 a b c val by simp
qed

text \<open>
  C7 as stated fails twice. The report \<^verbatim>\<open>run_checks\<close> builds for a machine at 95
  percent of memory has the snapshot shape, and on a standard output that is ASCII
  \<^verbatim>\<open>suggest_actions\<close> raises \<^verbatim>\<open>UnicodeEncodeError\<close> on it. And a disk entry whose
  percentage is the string \<^verbatim>\<open>n/a\<close> is compared with 90, which raises
  \<^verbatim>\<open>TypeError\<close>: the disk check lacks the \<^verbatim>\<open>isinstance\<close> test of the memory and
  CPU checks.
\<close>

theorem rule_engine_total_counterexample:
  "snapshot_shaped (run_checks ex_args ex_env)
   \<and> suggest_actions ex_ascii_console (run_checks ex_args ex_env) = Inl UnicodeEncodeError
   \<and> accepts_all ex_utf8_console
   \<and> suggest_actions ex_utf8_console ex_disk_report = Inl TypeError"
proof -
  have nb: "\<not> encodes_bullet ex_ascii_console" by (simp add: ex_ascii_console_def)
  have con: "accepts_all ex_utf8_console" by (simp add: accepts_all_def ex_utf8_console_def)
  have d: "suggest_actions ex_utf8_console ex_disk_report = Inl TypeError"
    by (simp add: suggest_actions_def memory_check_def cpu_check_def disk_check_def
        bind_e_def ex_disk_report_def Let_def py_gt_def)
  from run_checks_shaped [of ex_args ex_env] ex_no_bullet [OF nb] con d show ?thesis by simp
qed

lemma save_report_ok:
  "report_writable e \<Longrightarrow> text_ok con path \<Longrightarrow> save_report con e path = Inr ()"
  by (simp add: save_report_def py_print_def str_ok_def)

lemma main_no_psutil:
  assumes "psutil e = None" and "report_writable e" and "text_ok (console w) (report_path a)"
  shows "main a e w = (None, w)"
proof -
  obtain msg where m: "run_checks a e = error_dict msg"
    using run_checks_error [OF assms(1)] by blast
  show ?thesis
    by (simp add: main_def Let_def m pretty_print_summary_error suggest_actions_error
        save_report_ok [OF assms(2,3)] interactive_fix_def)
qed

lemma main_no_fix:
  assumes "report_writable e" and "\<not> fix_mode a" and con: "accepts_all (console w)"
  shows "main a e w = (None, w)"
proof -
  obtain adv where s: "suggest_actions (console w) (run_checks a e) = Inr adv"
    using suggest_actions_run_checks [OF con] by blast
  show ?thesis
    using assms(2)
    by (simp add: main_def Let_def pretty_print_summary_run_checks [OF con] s
        save_report_ok [OF assms(1) accepts_text [OF con]])
qed

lemma main_not_writable:
  assumes "\<not> report_writable e" and con: "accepts_all (console w)"
  shows "main a e w = (Some OSError, w)"
proof -
  obtain adv where s: "suggest_actions (console w) (run_checks a e) = Inr adv"
    using suggest_actions_run_checks [OF con] by blast
  show ?thesis
    using assms(1)
    by (simp add: main_def Let_def pretty_print_summary_run_checks [OF con] s save_report_def)
qed

text \<open>
  C3, as amended. The exit status is 0 when \<^verbatim>\<open>main\<close> returns and 1 when an exception
  escapes it. A run in which psutil is unavailable returns with status 0, with or
  without fix mode, when the report file can be written and its path printed:
  \<^verbatim>\<open>run_checks\<close> gives the error marker, no finding and no suggestion is produced, and
  nothing is offered. On a standard output that encodes every character, a run without
  fix mode whose report file can be written returns with status 0, and a run whose
  report file cannot be written ends with status 1, whether psutil is available or not.
\<close>

theorem exit_status_of_main:
  "(psutil e = None \<and> report_writable e \<and> text_ok (console w) (report_path a) \<longrightarrow>
        main a e w = (None, w) \<and> exit_status (main a e w) = 0 \<and>
        suggest_actions (console w) (run_checks a e) = Inr ([], []))
   \<and> (report_writable e \<and> \<not> fix_mode a \<and> accepts_all (console w) \<longrightarrow>
        main a e w = (None, w) \<and> exit_status (main a e w) = 0)
   \<and> (\<not> report_writable e \<and> accepts_all (console w) \<longrightarrow>
        main a e w = (Some OSError, w) \<and> exit_status (main a e w) = 1)"
proof -
  have one: "psutil e = None \<and> report_writable e \<and> text_ok (console w) (report_path a) \<longrightarrow>
        main a e w = (None, w) \<and> exit_status (main a e w) = 0 \<and>
        suggest_actions (console w) (run_checks a e) = Inr ([], [])"
    using main_no_psutil [where e = e and a = a and w = w] run_checks_error [of e a]
      suggest_actions_error
    by (auto simp add: exit_status_def)
  have two: "report_writable e \<and> \<not> fix_mode a \<and> accepts_all (console w) \<longrightarrow>
        main a e w = (None, w) \<and> exit_status (main a e w) = 0"
    using main_no_fix [where e = e and a = a and w = w] by (simp add: exit_status_def)
  have three: "\<not> report_writable e \<and> accepts_all (console w) \<longrightarrow>
        main a e w = (Some OSError, w) \<and> exit_status (main a e w) = 1"
    using main_not_writable [where e = e and a = a and w = w] by (simp add: exit_status_def)
  from one two three show ?thesis by blast
qed

theorem exit_status_of_main_witness:
  "main ex_args ex_env ex_world = (None, ex_world)
   \<and> exit_status (main ex_args ex_env ex_world) = 0
   \<and> main ex_fix_args ex_env_no_psutil ex_world = (None, ex_world)
   \<and> exit_status (main ex_fix_args ex_env_no_psutil ex_world) = 0
   \<and> suggest_actions (console ex_world) (run_checks ex_fix_args ex_env_no_psutil) = Inr ([], [])
   \<and> main ex_args (ex_env\<lparr>report_writable := False\<rparr>) ex_world = (Some OSError, ex_world)
   \<and> exit_status (main ex_args (ex_env\<lparr>report_writable := False\<rparr>) ex_world) = 1
   \<and> psutil (ex_env\<lparr>report_writable := False\<rparr>) = Some ex_provider"
proof -
  have con: "accepts_all (console ex_world)"
    by (simp add: accepts_all_def ex_world_def ex_utf8_console_def)
  have h1: "report_writable ex_env \<and> \<not> fix_mode ex_args"
    by (simp add: ex_env_def ex_args_def)
  have h2: "psutil ex_env_no_psutil = None \<and> report_writable ex_env_no_psutil"
    by (simp add: ex_env_no_psutil_def)
  have h3: "\<not> report_writable (ex_env\<lparr>report_writable := False\<rparr>)" by simp
  have h4: "psutil (ex_env\<lparr>report_writable := False\<rparr>) = Some ex_provider"
    by (simp add: ex_env_def)
  from exit_status_of_main [where e = ex_env and a = ex_args and w = ex_world] h1 con
  have a: "main ex_args ex_env ex_world = (None, ex_world) \<and>
           exit_status (main ex_args ex_env ex_world) = 0"
    by blast
  from exit_status_of_main [where e = ex_env_no_psutil and a = ex_fix_args and w = ex_world]
    h2 accepts_text [OF con]
  have b: "main ex_fix_args ex_env_no_psutil ex_world = (None, ex_world) \<and>
           exit_status (main ex_fix_args ex_env_no_psutil ex_world) = 0 \<and>
           suggest_actions (console ex_world) (run_checks ex_fix_args ex_env_no_psutil) = Inr ([], [])"
    by blast
  from exit_status_of_main [where e = "ex_env\<lparr>report_writable := False\<rparr>" and a = ex_args
      and w = ex_world] h3 con
  have c: "main ex_args (ex_env\<lparr>report_writable := False\<rparr>) ex_world = (Some OSError, ex_world) \<and>
           exit_status (main ex_args (ex_env\<lparr>report_writable := False\<rparr>) ex_world) = 1"
    by blast
  from a b c h4 show ?thesis by blast
qed

text \<open>
  C3 as stated fails: with psutil unavailable the program still exits with status 0.
\<close>

theorem exit_status_of_main_counterexample:
  "psutil ex_env_no_psutil = None
   \<and> exit_status (main ex_args ex_env_no_psutil ex_world) = 0
   \<and> exit_status (main ex_fix_args ex_env_no_psutil ex_world) = 0"
proof -
  have n: "psutil ex_env_no_psutil = None" "report_writable ex_env_no_psutil"
    by (simp_all add: ex_env_no_psutil_def)
  have t: "text_ok (console ex_world) s" for s
    by (simp add: text_ok_def can_encode_def ex_world_def ex_utf8_console_def list_all_iff)
  show ?thesis
    by (simp add: n main_no_psutil [OF n t] exit_status_def)
qed

text \<open>
  C8. \<^verbatim>\<open>top_processes\<close> of \<^verbatim>\<open>helpdesk.py\<close> sorts by the memory key alone with a
  stable sort, so entries with equal memory keep the provider's order.
  \<^verbatim>\<open>collect_basic_report\<close> of \<^verbatim>\<open>helpdesk_logging.py\<close> sorts whole tuples in
  reverse, so two entries with equal memory come out by descending pid: for the provider
  order pid 1, pid 2, both with memory 0, it returns pid 2 first.
\<close>

theorem tie_order_of_the_two_sorts:
  "filter (\<lambda>x. rss_key x = k) (sorted_reverse rss_key xs) = filter (\<lambda>x. rss_key x = k) xs
   \<and> top_processes 5 ex_tie_provider = [proc_dict ex_unknown_a, proc_dict ex_zero_b]
   \<and> logging_top_processes [ex_unknown_a, ex_zero_b] =
       [logging_tuple ex_zero_b, logging_tuple ex_unknown_a]
   \<and> map (\<lambda>t. fst (snd t)) (logging_top_processes [ex_unknown_a, ex_zero_b]) = [2, 1]"
proof -
  have keys: "rss_key (proc_dict ex_unknown_a) = 0" "rss_key (proc_dict ex_zero_b) = 0"
    by (simp_all add: rss_key_proc_dict mem_of_def ex_unknown_a_def ex_zero_b_def)
  have t: "top_processes 5 ex_tie_provider = [proc_dict ex_unknown_a, proc_dict ex_zero_b]"
    by (simp add: top_processes_def ex_tie_provider_def sorted_reverse_def slice_to_def keys)
  have tup: "logging_tuple ex_unknown_a = (0, 1, Some ''a'')" "logging_tuple ex_zero_b = (0, 2, Some ''b'')"
    by (simp_all add: logging_tuple_def ex_unknown_a_def ex_zero_b_def)
  have l: "logging_top_processes [ex_unknown_a, ex_zero_b] =
       [logging_tuple ex_zero_b, logging_tuple ex_unknown_a]"
    by (simp add: logging_top_processes_def sorted_reverse_def tup)
  show ?thesis using t l by (simp add: sorted_reverse_stable tup)
qed

end
